theory Spec2Isabelle
  imports Complex_Main "HOL-Library.Log_Nat"
begin

section \<open>Text and cell values\<close>

text \<open>
  The scripts of this repository read an Excel workbook with pandas and classify each
  shipment row by the text of its \<^verbatim>\<open>ACCT NM\<close> cell. Texts are modelled as
  \<^typ>\<open>string\<close>, restricted to ASCII: case mapping acts on the letters A to Z only.
\<close>

definition upper_letters :: string where
  "upper_letters = ''ABCDEFGHIJKLMNOPQRSTUVWXYZ''"

definition lower_letters :: string where
  "lower_letters = ''abcdefghijklmnopqrstuvwxyz''"

definition lower_char :: "char \<Rightarrow> char" where
  "lower_char c = (case map_of (zip upper_letters lower_letters) c of None \<Rightarrow> c | Some d \<Rightarrow> d)"

definition upper_char :: "char \<Rightarrow> char" where
  "upper_char c = (case map_of (zip lower_letters upper_letters) c of None \<Rightarrow> c | Some d \<Rightarrow> d)"

definition str_lower :: "string \<Rightarrow> string" where
  "str_lower s = map lower_char s"

definition str_upper :: "string \<Rightarrow> string" where
  "str_upper s = map upper_char s"

text \<open>Python's \<^verbatim>\<open>k in s\<close> on two strings: \<open>k\<close> occurs in \<open>s\<close> as a contiguous block.\<close>

fun starts_with :: "string \<Rightarrow> string \<Rightarrow> bool" where
  "starts_with [] s = True"
| "starts_with (k # ks) [] = False"
| "starts_with (k # ks) (c # cs) = (k = c \<and> starts_with ks cs)"

fun py_in :: "string \<Rightarrow> string \<Rightarrow> bool" where
  "py_in k [] = (k = [])"
| "py_in k (c # cs) = (starts_with k (c # cs) \<or> py_in k cs)"

text \<open>Python's \<^verbatim>\<open>str.strip()\<close>: leading and trailing ASCII whitespace removed.\<close>

definition is_space :: "char \<Rightarrow> bool" where
  "is_space c = (c \<in> set [CHR '' '', CHR 0x09, CHR 0x0A, CHR 0x0B, CHR 0x0C, CHR 0x0D,
                            CHR 0x1C, CHR 0x1D, CHR 0x1E, CHR 0x1F])"

definition str_strip :: "string \<Rightarrow> string" where
  "str_strip s = rev (dropWhile is_space (rev (dropWhile is_space s)))"

text \<open>
  A cell of a text column as pandas hands it over: an empty cell is the float NaN, a text
  cell a \<^verbatim>\<open>str\<close>; whole numbers and booleans occur too. \<open>PNone\<close> is Python's
  \<^verbatim>\<open>None\<close>. Floating-point numbers other than NaN and timestamps are not
  values of this type.
\<close>

datatype pyval = PNone | PNaN | PBool bool | PInt int | PStr string

text \<open>Truth value of a Python object, as \<^verbatim>\<open>not x\<close> reads it. NaN is true.\<close>

fun truthy :: "pyval \<Rightarrow> bool" where
  "truthy PNone = False"
| "truthy PNaN = True"
| "truthy (PBool b) = b"
| "truthy (PInt i) = (i \<noteq> 0)"
| "truthy (PStr s) = (s \<noteq> [])"

definition digit_char :: "nat \<Rightarrow> char" where
  "digit_char d = ''0123456789'' ! d"

fun digits :: "nat \<Rightarrow> string" where
  "digits n = (if n < 10 then [digit_char n] else digits (n div 10) @ [digit_char (n mod 10)])"

declare digits.simps [simp del]

text \<open>Python's \<^verbatim>\<open>str(x)\<close>.\<close>

fun py_str :: "pyval \<Rightarrow> string" where
  "py_str PNone = ''None''"
| "py_str PNaN = ''nan''"
| "py_str (PBool b) = (if b then ''True'' else ''False'')"
| "py_str (PInt i) = (if i < 0 then CHR ''-'' # digits (nat (- i)) else digits (nat i))"
| "py_str (PStr s) = s"

fun is_str :: "pyval \<Rightarrow> bool" where
  "is_str (PStr s) = True"
| "is_str v = False"

section \<open>Account taxonomy (app1.py)\<close>

definition RP_ACCOUNTS :: "string list" where
  "RP_ACCOUNTS =
   [''Marken Ltd'', ''QIAGEN GmbH Weekly'', ''Fisher Clinical Services'',
    ''Agilent Technologies Deutschland GmbH'', ''Patheon Biologics BV'',
    ''Delpharm Development Leiden BV'', ''Abbott Biologicals BV'',
    ''Fisher BioServices Netherlands BV'', ''Abbott Healthcare Products BV'',
    ''UNIVERSAL PICTURES INTERNATIONAL NETHERLANDS'', ''Patheon UK'', ''VERACYTE INC'',
    ''Tosoh Europe'', ''Exnet Services'', ''Nobel Biocare Distribution Center BV'']"

definition HEALTHCARE_KEYWORDS :: "string list" where
  "HEALTHCARE_KEYWORDS =
   [''pharma'', ''medical'', ''health'', ''bio'', ''clinical'', ''hospital'',
    ''diagnostic'', ''therapeut'', ''laborator'', ''patholog'', ''imaging'',
    ''surgical'', ''oncolog'', ''cardio'', ''neuro'', ''radiol'', ''genetic'',
    ''genomic'', ''molecular'', ''cell'', ''tissue'', ''organ'', ''transplant'',
    ''vaccine'', ''antibod'', ''protein'', ''peptide'', ''life science'',
    ''lifescience'', ''medic'', ''therap'', ''diagnost'', ''clinic'', ''patient'',
    ''treatment'', ''disease'', ''drug'', ''dose'', ''isotope'', ''radio'',
    ''nuclear'', ''pet'', ''spect'', ''immuno'', ''assay'', ''reagent'', ''specimen'',
    ''sample'', ''blood'', ''plasma'', ''serum'', ''biobank'', ''cryo'', ''stem'',
    ''marken'', ''fisher'', ''cardinal'', ''patheon'', ''organox'', ''qiagen'',
    ''abbott'', ''tosoh'', ''leica'', ''sophia'', ''cerus'', ''sirtex'', ''lantheus'',
    ''avid'', ''petnet'', ''innervate'', ''ndri'', ''university'', ''institut'',
    ''pentec'', ''sexton'', ''atomics'', ''curium'', ''medtronic'', ''catalent'',
    ''delpharm'', ''veracyte'', ''eckert'', ''ziegler'', ''shine'', ''altasciences'',
    ''onkos'', ''biolabs'', ''biosystem'', ''life molecular'', ''cerveau'',
    ''meilleur'', ''samsung bio'', ''agilent'']"

definition AVIATION_KEYWORDS :: "string list" where
  "AVIATION_KEYWORDS =
   [''airline'', ''airport'', ''cargo'', ''freight'', ''logistic'', ''transport'',
    ''express'', ''disney'', ''pictures'', ''aviation'', ''aircraft'', ''aerospace'',
    ''volaris'', ''easyjet'', ''lufthansa'', ''delta'', ''american airlines'',
    ''british airways'', ''nippon'', ''aeromexico'', ''spairliners'', ''universal'',
    ''paramount'', ''productions'', ''courier'', ''forwarding'', ''tmr global'',
    ''aeroplex'', ''nova traffic'', ''ups'', ''endeavor air'', ''storm aviation'',
    ''adventures'', ''hartford'', ''tokyo electron'', ''slipstick'',
    ''sealion production'', ''heathrow courier'', ''macaronesia'', ''exnet service'',
    ''mnx global logistics'', ''logical freight'', ''concesionaria'',
    ''vuela compania'', ''panasonic avionics'']"

text \<open>
  The loop \<^verbatim>\<open>for keyword in KEYWORDS: if keyword in account_lower: return ...\<close>
  of \<open>is_healthcare\<close> and \<open>is_aviation\<close> (app1.py, lines 111 to 162).
\<close>

fun any_keyword_in :: "string list \<Rightarrow> string \<Rightarrow> bool" where
  "any_keyword_in [] s = False"
| "any_keyword_in (k # ks) s = (if py_in k s then True else any_keyword_in ks s)"

definition is_rp_account :: "pyval \<Rightarrow> bool" where
  "is_rp_account account_name =
     (if \<not> truthy account_name then False
      else py_str account_name \<in> set RP_ACCOUNTS)"

definition is_healthcare :: "pyval \<Rightarrow> bool" where
  "is_healthcare account_name =
     (if \<not> truthy account_name then False
      else if is_rp_account account_name then False
      else let account_lower = str_lower (py_str account_name) in
        if any_keyword_in AVIATION_KEYWORDS account_lower then False
        else if any_keyword_in HEALTHCARE_KEYWORDS account_lower then True
        else False)"

definition is_aviation :: "pyval \<Rightarrow> bool" where
  "is_aviation account_name =
     (if \<not> truthy account_name then False
      else if is_rp_account account_name then False
      else let account_lower = str_lower (py_str account_name) in
        if any_keyword_in HEALTHCARE_KEYWORDS account_lower then False
        else if any_keyword_in AVIATION_KEYWORDS account_lower then True
        else False)"

text \<open>
  pandas' \<^verbatim>\<open>Series.isin(values)\<close> on one cell: the cell equals one of the
  listed texts. A cell that is not a text equals none of them.
\<close>

definition isin :: "pyval \<Rightarrow> string list \<Rightarrow> bool" where
  "isin v xs = (case v of PStr s \<Rightarrow> s \<in> set xs | _ \<Rightarrow> False)"

section \<open>Account taxonomy of the sheet-aware script\<close>

text \<open>
  The file \<^verbatim>\<open>src/unnamed/part_000\<close> holds two further scripts. Names of the
  first (lines 1 to 350, the sheet-aware script) carry the suffix \<open>v1\<close>, names of the
  second (lines 351 to 872) the suffix \<open>v2\<close>; the second script's allow-list and
  keyword lists are those of app1.py. The first script decides by the source sheet before
  it looks at the account name.
\<close>

definition HEALTHCARE_KEYWORDS_v1 :: "string list" where
  "HEALTHCARE_KEYWORDS_v1 =
   [''pharma'', ''medical'', ''health'', ''bio'', ''clinical'', ''hospital'',
    ''diagnostic'', ''therapeut'', ''laborator'', ''patholog'', ''oncolog'',
    ''genetic'', ''genomic'', ''molecular'', ''vaccine'', ''abbott'', ''marken'',
    ''fisher'', ''patheon'', ''qiagen'', ''veracyte'', ''delpharm'', ''agilent'',
    ''biocare'', ''tosoh'', ''biolog'', ''life science'', ''lifescience'',
    ''specimen'', ''reagent'', ''immuno'', ''assay'', ''curium'', ''medtronic'']"

definition AVIATION_KEYWORDS_v1 :: "string list" where
  "AVIATION_KEYWORDS_v1 =
   [''airline'', ''airport'', ''aviation'', ''aircraft'', ''aerospace'', ''cargo'',
    ''freight'', ''express'', ''courier'', ''lufthansa'', ''delta'',
    ''american airlines'', ''british airways'', ''klm'', ''air france'', ''iberia'',
    ''easyjet'', ''end eavor air'', ''storm aviation'', ''heathrow'', ''spairliners'',
    ''mnx'', ''tokyo electron'']"

text \<open>
  \<^verbatim>\<open>_contains_any\<close>, \<open>is_healthcare\<close> and \<open>is_aviation\<close> of the sheet-aware
  script (lines 84 to 98).
\<close>

definition contains_any :: "pyval \<Rightarrow> string list \<Rightarrow> bool" where
  "contains_any text keywords =
     (case text of
        PStr s \<Rightarrow> (let lower = str_lower s in list_ex (\<lambda>k. py_in k lower) keywords)
      | _ \<Rightarrow> False)"

definition is_healthcare_v1 :: "pyval \<Rightarrow> string option \<Rightarrow> bool" where
  "is_healthcare_v1 account_name sheet_name =
     (if sheet_name = Some ''Aviation SVC'' then False
      else contains_any (PStr (py_str account_name)) HEALTHCARE_KEYWORDS_v1)"

definition is_aviation_v1 :: "pyval \<Rightarrow> string option \<Rightarrow> bool" where
  "is_aviation_v1 account_name sheet_name =
     (if sheet_name = Some ''Aviation SVC'' then True
      else contains_any (PStr (py_str account_name)) AVIATION_KEYWORDS_v1)"

text \<open>
  The row tests of the LFS and AVS tabs of that script. The column has been through
  \<^verbatim>\<open>astype(str)\<close> before, so the functions receive \<open>str(cell)\<close>.
\<close>

definition lfs_keep_v1 :: "pyval \<Rightarrow> string \<Rightarrow> bool" where
  "lfs_keep_v1 cell Source_Sheet =
     (let a = PStr (py_str cell) in
      \<not> is_aviation_v1 a (Some Source_Sheet) \<and> is_healthcare_v1 a (Some Source_Sheet))"

definition avs_keep_v1 :: "pyval \<Rightarrow> string \<Rightarrow> bool" where
  "avs_keep_v1 cell Source_Sheet =
     (let a = PStr (py_str cell) in
      is_aviation_v1 a (Some Source_Sheet) \<and> \<not> is_healthcare_v1 a (Some Source_Sheet))"

section \<open>Binary floating point\<close>

text \<open>
  The percentages of the scripts are IEEE 754 binary64 numbers. A float is modelled by
  its exact rational value, and an arithmetic operation by the exact operation followed by
  \<open>fl\<close>, rounding to the nearest number with a 53-bit significand, ties to the even
  significand. The limits of the exponent play no role: the values computed here are
  quotients of row counts, times 100. Row counts are below \<open>2^53\<close> (a sheet has at most
  \<open>2^20\<close> rows), so their conversion to binary64 is exact.
\<close>

definition round_half_even :: "rat \<Rightarrow> int" where
  "round_half_even x =
     (let f = \<lfloor>x\<rfloor>; d = x - of_int f in
      if d < 1 / 2 then f
      else if d > 1 / 2 then f + 1
      else if even f then f else f + 1)"

definition pow2 :: "int \<Rightarrow> rat" where
  "pow2 e = (if 0 \<le> e then 2 ^ nat e else 1 / 2 ^ nat (- e))"

text \<open>The exponent \<open>e\<close> with \<open>2^e \<le> x < 2^(e+1)\<close>, for positive \<open>x\<close>.\<close>

definition binade :: "rat \<Rightarrow> int" where
  "binade x =
     (if 1 \<le> x then bitlen \<lfloor>x\<rfloor> - 1
      else let k = bitlen \<lfloor>1 / x\<rfloor> - 1 in if x = pow2 (- k) then - k else - k - 1)"

definition fl :: "rat \<Rightarrow> rat" where
  "fl x =
     (if x = 0 then 0
      else let a = \<bar>x\<bar>;
               q = pow2 (binade a - 52);
               m = round_half_even (a / q)
           in sgn x * of_int m * q)"

text \<open>
  \<^verbatim>\<open>k / n * 100\<close> on two counts, as in
  \<^verbatim>\<open>ontime_mask.sum() / valid_mask.sum() * 100\<close>, and likewise the mean of a
  Boolean column times \<^verbatim>\<open>100.0\<close>.
\<close>

definition float_pct :: "nat \<Rightarrow> nat \<Rightarrow> rat" where
  "float_pct k n = fl (fl (of_nat k / of_nat n) * 100)"

text \<open>
  \<^verbatim>\<open>round(x, 2)\<close> is a library function and a parameter of the functions that call
  it. Two implementations are given for the evaluation of examples: the rounding numpy
  applies to its float64 scalars (multiply by 100, round to the nearest integer, divide
  by 100), and the rounding of CPython's \<^verbatim>\<open>float\<close> (the exact value rounded to two
  decimals, half to even, and the nearest float to that).
\<close>

definition np_round2 :: "rat \<Rightarrow> rat" where
  "np_round2 x = fl (of_int (round_half_even (fl (x * 100))) / 100)"

definition py_round2 :: "rat \<Rightarrow> rat" where
  "py_round2 x = fl (of_int (round_half_even (x * 100)) / 100)"

section \<open>Dates and data frames\<close>

text \<open>
  A point in time is a rational number of days since 1970-01-01 00:00, the fraction
  being the time of day; \<open>None\<close> is pandas' \<^verbatim>\<open>NaT\<close>.

  A raw cell of a date column is described by what pandas makes of it at its position in
  the series:
  \<^item> whether the cell is non-null;
  \<^item> what \<^verbatim>\<open>pd.to_datetime(s, errors="coerce")\<close> returns there;
  \<^item> what the serial-number reading
    \<^verbatim>\<open>pd.to_datetime("1899-12-30") + pd.to_timedelta(pd.to_numeric(s, errors="coerce"), unit="D")\<close>
    makes of it. \<open>NotANumber\<close>: there is no number to read (NaN, or the NaT of a datetime
    column), the result is NaT. \<open>Serial t\<close>: the number is a count of days in range and
    \<open>t\<close> is 1899-12-30 plus that many days. \<open>Overflows\<close>: the number of days does not
    fit the 64-bit nanosecond range of pandas' time spans and timestamps; pandas then
    raises \<^verbatim>\<open>OutOfBoundsTimedelta\<close> (or an overflow error for the sum, which the
    model does not tell apart) and the whole call fails.
  Both conversions keep the length and the order of the series.
\<close>

type_synonym timestamp = rat

datatype error = KeyError string | OutOfBoundsTimedelta

datatype serial = NotANumber | Overflows | Serial timestamp

record date_cell =
  notna :: bool
  as_datetime :: "timestamp option"
  as_serial :: serial

text \<open>An empty cell of a column of numbers or of text: null under every reading.\<close>

definition nan_cell :: date_cell where
  "nan_cell = \<lparr>notna = False, as_datetime = None, as_serial = NotANumber\<rparr>"

definition pd_to_datetime :: "date_cell list \<Rightarrow> timestamp option list" where
  "pd_to_datetime s = map as_datetime s"

text \<open>
  The serial reading of a cell in which \<^verbatim>\<open>pd.to_numeric\<close> finds the number
  \<open>n\<close>: the time span of \<open>n\<close> days and its sum with 1899-12-30 (day \<open>-25569\<close>) are
  signed 64-bit counts of nanoseconds, and a number that does not fit overflows. The
  truncation of the span to whole nanoseconds is left out; the function serves to describe
  the cells of example columns.
\<close>

definition excel_epoch :: timestamp where
  "excel_epoch = - 25569"

definition ns_per_day :: rat where
  "ns_per_day = 86400000000000"

definition serial_of_number :: "rat \<Rightarrow> serial" where
  "serial_of_number n =
     (if \<bar>n\<bar> * ns_per_day > 2 ^ 63 - 1 \<or> \<bar>excel_epoch + n\<bar> * ns_per_day > 2 ^ 63 - 1
      then Overflows
      else Serial (excel_epoch + n))"

text \<open>
  The second candidate series \<^verbatim>\<open>out2\<close>: an error if one value overflows, the
  serial dates otherwise.
\<close>

definition serial_dates :: "date_cell list \<Rightarrow> error + timestamp option list" where
  "serial_dates s =
     (if list_ex (\<lambda>c. as_serial c = Overflows) s then Inl OutOfBoundsTimedelta
      else Inr (map (\<lambda>c. case as_serial c of Serial t \<Rightarrow> Some t | _ \<Rightarrow> None) s))"

text \<open>
  \<^verbatim>\<open>out.isna().mean()\<close>: the share of null entries, a float; the mean of an empty
  series is NaN, and a comparison with NaN is false.
\<close>

definition isna_mean :: "'a option list \<Rightarrow> rat option" where
  "isna_mean out =
     (if out = [] then None
      else Some (fl (of_nat (length (filter (\<lambda>x. x = None) out)) / of_nat (length out))))"

text \<open>\<^verbatim>\<open>_excel_to_dt\<close> (app1.py, lines 95 to 102; the same in all three scripts).\<close>

definition excel_to_dt :: "date_cell list \<Rightarrow> error + timestamp option list" where
  "excel_to_dt s =
     (let out = pd_to_datetime s in
      if (case isna_mean out of None \<Rightarrow> False | Some m \<Rightarrow> m > 1 / 2) then
        case serial_dates s of
          Inl e \<Rightarrow> Inl e
        | Inr out2 \<Rightarrow> Inr (map2 (\<lambda>o1 o2. if o1 \<noteq> None then o1 else o2) out out2)
      else Inr out)"

text \<open>
  A row of a sheet, with the columns the classification and the on-time computation read.
  The columns \<^verbatim>\<open>PIECES\<close> and \<^verbatim>\<open>TOTAL CHARGES\<close> feed sums only and
  are left out. A data frame lists the names of its columns; a field of a row whose column
  the frame does not have carries no information.
\<close>

record row =
  ACCT_NM :: pyval
  DEP :: pyval
  ARR :: pyval
  POD_DATE_TIME :: date_cell
  UPD_DEL :: date_cell
  QDT :: date_cell
  QC :: pyval
  QC_NAME :: pyval

record dataframe =
  columns :: "string list"
  rows :: "row list"

definition empty_frame :: dataframe where
  "empty_frame = \<lparr>columns = [], rows = []\<rparr>"

definition has_column :: "string \<Rightarrow> dataframe \<Rightarrow> bool" where
  "has_column c df = (c \<in> set (columns df))"

text \<open>\<^verbatim>\<open>df.empty\<close>: one of the two axes has length zero.\<close>

definition df_empty :: "dataframe \<Rightarrow> bool" where
  "df_empty df = (columns df = [] \<or> rows df = [])"

text \<open>\<^verbatim>\<open>_get_target_series\<close> (app1.py, lines 104 to 109).\<close>

definition get_target_series :: "dataframe \<Rightarrow> date_cell list option" where
  "get_target_series df =
     (if has_column ''UPD DEL'' df \<and> list_ex notna (map UPD_DEL (rows df))
        then Some (map UPD_DEL (rows df))
      else if has_column ''QDT'' df then Some (map QDT (rows df))
      else None)"

section \<open>Office filter (app1.py)\<close>

text \<open>
  \<^verbatim>\<open>df[col].astype(str).str.contains('AMS', case=False, na=False)\<close> on one cell,
  and \<open>filter_by_ams\<close> (app1.py, lines 257 to 266).
\<close>

definition contains_AMS :: "pyval \<Rightarrow> bool" where
  "contains_AMS v = py_in ''ams'' (str_lower (py_str v))"

definition filter_by_ams :: "dataframe \<Rightarrow> dataframe" where
  "filter_by_ams df =
     (if df_empty df then df
      else if has_column ''DEP'' df \<and> has_column ''ARR'' df then
        df\<lparr>rows := filter (\<lambda>r. contains_AMS (DEP r) \<or> contains_AMS (ARR r)) (rows df)\<rparr>
      else df)"

section \<open>Quality-control patterns\<close>

text \<open>
  The regular expressions of the scripts are alternatives of literal words, some with
  \<^verbatim>\<open>\s*\<close> between two words, each between two word boundaries
  \<^verbatim>\<open>\b\<close>, searched case-insensitively. \<open>match_atoms\<close> returns, for every
  way the atoms match a prefix of the text, the last character consumed and the rest.
  Characters are classified as Python classifies the characters of ASCII; on other
  characters Python's word characters, white space and case folding are larger classes,
  and the properties of the patterns are stated for ASCII text.
\<close>

datatype atom = Lit char | Spaces

definition lits :: "string \<Rightarrow> atom list" where
  "lits s = map Lit s"

definition is_word_char :: "char \<Rightarrow> bool" where
  "is_word_char c = (c \<in> set (upper_letters @ lower_letters @ ''0123456789_''))"

definition word_boundary :: "char option \<Rightarrow> char option \<Rightarrow> bool" where
  "word_boundary prev next_c =
     ((case prev of None \<Rightarrow> False | Some c \<Rightarrow> is_word_char c) \<noteq>
      (case next_c of None \<Rightarrow> False | Some c \<Rightarrow> is_word_char c))"

definition first_char :: "string \<Rightarrow> char option" where
  "first_char s = (case s of [] \<Rightarrow> None | c # cs \<Rightarrow> Some c)"

fun match_atoms :: "atom list \<Rightarrow> char option \<Rightarrow> string \<Rightarrow> (char option \<times> string) list" where
  "match_atoms [] prev s = [(prev, s)]"
| "match_atoms (Lit p # ats) prev [] = []"
| "match_atoms (Lit p # ats) prev (c # cs) =
     (if upper_char c = upper_char p then match_atoms ats (Some c) cs else [])"
| "match_atoms (Spaces # ats) prev [] = match_atoms ats prev []"
| "match_atoms (Spaces # ats) prev (c # cs) =
     (if is_space c then match_atoms (Spaces # ats) (Some c) cs else []) @
     match_atoms ats prev (c # cs)"

definition bounded_match_at :: "atom list \<Rightarrow> char option \<Rightarrow> string \<Rightarrow> bool" where
  "bounded_match_at p prev s =
     (word_boundary prev (first_char s) \<and>
      list_ex (\<lambda>(last_c, rest). word_boundary last_c (first_char rest)) (match_atoms p prev s))"

fun regex_search_from :: "atom list list \<Rightarrow> char option \<Rightarrow> string \<Rightarrow> bool" where
  "regex_search_from ps prev [] = list_ex (\<lambda>p. bounded_match_at p prev []) ps"
| "regex_search_from ps prev (c # cs) =
     (list_ex (\<lambda>p. bounded_match_at p prev (c # cs)) ps \<or> regex_search_from ps (Some c) cs)"

definition regex_search :: "atom list list \<Rightarrow> string \<Rightarrow> bool" where
  "regex_search ps s = regex_search_from ps None s"

text \<open>The twelve patterns of app1.py.\<close>

definition non_controllable_patterns :: "atom list list" where
  "non_controllable_patterns =
     [lits ''AGENT'',
      lits ''DEL'' @ [Spaces] @ lits ''AGT'',
      lits ''DELIVERY'' @ [Spaces] @ lits ''AGENT'',
      lits ''CUSTOMS'',
      lits ''WAREHOUSE'',
      lits ''W/HOUSE'',
      lits ''WH'',
      lits ''CLEARANCE'',
      lits ''REGULATORY'',
      lits ''GOVERNMENT'',
      lits ''WEATHER'',
      lits ''FORCE'' @ [Spaces] @ lits ''MAJEURE'']"

text \<open>The six patterns of the second script, and those of the sheet-aware script.\<close>

definition ctrl_regex_v2 :: "atom list list" where
  "ctrl_regex_v2 =
     [lits ''AGENT'',
      lits ''DEL'' @ [Spaces] @ lits ''AGT'',
      lits ''DELIVERY'' @ [Spaces] @ lits ''AGENT'',
      lits ''CUSTOMS'',
      lits ''WAREHOUSE'',
      lits ''W/HOUSE'']"

definition CTRL_REGEX :: "atom list list" where
  "CTRL_REGEX =
     [lits ''agent'',
      lits ''del'' @ [Spaces] @ lits ''agt'',
      lits ''delivery'' @ [Spaces] @ lits ''agent'',
      lits ''customs'',
      lits ''warehouse'',
      lits ''w/house'']"

section \<open>On-time performance\<close>

text \<open>Boolean masks: \<^verbatim>\<open>mask.sum()\<close> and the comparison of two date series.\<close>

definition mask_sum :: "bool list \<Rightarrow> nat" where
  "mask_sum m = length (filter (\<lambda>b. b) m)"

definition ts_le :: "timestamp option \<Rightarrow> timestamp option \<Rightarrow> bool" where
  "ts_le a b = (case (a, b) of (Some x, Some y) \<Rightarrow> x \<le> y | _ \<Rightarrow> False)"

definition valid_mask :: "timestamp option list \<Rightarrow> timestamp option list \<Rightarrow> bool list" where
  "valid_mask target_dt pod_dt = map2 (\<lambda>t p. t \<noteq> None \<and> p \<noteq> None) target_dt pod_dt"

definition ontime_mask :: "timestamp option list \<Rightarrow> timestamp option list \<Rightarrow> bool list" where
  "ontime_mask target_dt pod_dt =
     map2 (\<lambda>le v. le \<and> v) (map2 (\<lambda>t p. ts_le p t) target_dt pod_dt) (valid_mask target_dt pod_dt)"

definition mask_and :: "bool list \<Rightarrow> bool list \<Rightarrow> bool list" where
  "mask_and a b = map2 (\<lambda>x y. x \<and> y) a b"

definition mask_not :: "bool list \<Rightarrow> bool list" where
  "mask_not a = map (\<lambda>x. \<not> x) a"

text \<open>
  app1.py: \<^verbatim>\<open>df['QC'].fillna('').astype(str).str.upper()\<close>, then per cell
  \<^verbatim>\<open>bool(ctrl_regex.search(x)) if x else False\<close>.
\<close>

definition qc_text :: "pyval \<Rightarrow> string" where
  "qc_text v = str_upper (case v of PNaN \<Rightarrow> [] | PNone \<Rightarrow> [] | _ \<Rightarrow> py_str v)"

definition non_controllable :: "pyval \<Rightarrow> bool" where
  "non_controllable v =
     (let x = qc_text v in if x \<noteq> [] then regex_search non_controllable_patterns x else False)"

text \<open>
  \<open>calculate_otp\<close> of app1.py (lines 164 to 255). The target series is normalized before
  the proof-of-delivery column, and an error of either leaves the function. The argument
  \<open>round_2\<close> is \<^verbatim>\<open>round(x, 2)\<close>; the early returns \<^verbatim>\<open>0.0, 0.0\<close> are not
  rounded. The function also stores a few counts for a debug panel in the session state;
  they do not enter the result and are left out.
\<close>

definition calculate_otp :: "(rat \<Rightarrow> rat) \<Rightarrow> dataframe \<Rightarrow> error + rat \<times> rat" where
  "calculate_otp round_2 df =
     (if df_empty df then Inr (0, 0)
      else case get_target_series df of
        None \<Rightarrow> Inr (0, 0)
      | Some target_col \<Rightarrow>
          if \<not> has_column ''POD DATE/TIME'' df then Inr (0, 0)
          else
            case excel_to_dt target_col of
              Inl e \<Rightarrow> Inl e
            | Inr target_dt \<Rightarrow>
                case excel_to_dt (map POD_DATE_TIME (rows df)) of
                  Inl e \<Rightarrow> Inl e
                | Inr pod_dt \<Rightarrow>
                    let valid = valid_mask target_dt pod_dt
                    in if \<not> list_ex (\<lambda>b. b) valid then Inr (0, 0)
                       else
                         let ontime = ontime_mask target_dt pod_dt;
                             gross_otp =
                               (if mask_sum valid > 0
                                then float_pct (mask_sum ontime) (mask_sum valid) else 0);
                             net_otp =
                               (if has_column ''QC'' df then
                                  let non_ctrl = map (\<lambda>r. non_controllable (QC r)) (rows df);
                                      controllable = mask_and valid (mask_not non_ctrl)
                                  in if mask_sum controllable > 0
                                     then float_pct (mask_sum (mask_and ontime controllable))
                                            (mask_sum controllable)
                                     else 0
                                else gross_otp)
                         in Inr (round_2 gross_otp, round_2 net_otp))"

text \<open>
  \<open>calculate_otp\<close> of the second script (part_000, lines 498 to 548): the QC text is
  \<^verbatim>\<open>df['QC'].astype(str).str.upper()\<close>, six patterns, no rounding.
\<close>

definition non_controllable_v2 :: "pyval \<Rightarrow> bool" where
  "non_controllable_v2 v = regex_search ctrl_regex_v2 (str_upper (py_str v))"

definition calculate_otp_v2 :: "dataframe \<Rightarrow> error + rat \<times> rat" where
  "calculate_otp_v2 df =
     (if df_empty df then Inr (0, 0)
      else case get_target_series df of
        None \<Rightarrow> Inr (0, 0)
      | Some target_col \<Rightarrow>
          if \<not> has_column ''POD DATE/TIME'' df then Inr (0, 0)
          else
            case excel_to_dt target_col of
              Inl e \<Rightarrow> Inl e
            | Inr target_dt \<Rightarrow>
                case excel_to_dt (map POD_DATE_TIME (rows df)) of
                  Inl e \<Rightarrow> Inl e
                | Inr pod_dt \<Rightarrow>
                    let valid = valid_mask target_dt pod_dt
                    in if \<not> list_ex (\<lambda>b. b) valid then Inr (0, 0)
                       else
                         let ontime = ontime_mask target_dt pod_dt;
                             gross_otp =
                               (if mask_sum valid > 0
                                then float_pct (mask_sum ontime) (mask_sum valid) else 0);
                             net_otp =
                               (if has_column ''QC'' df then
                                  let non_ctrl = map (\<lambda>r. non_controllable_v2 (QC r)) (rows df);
                                      controllable = mask_and valid (mask_not non_ctrl)
                                  in if mask_sum controllable > 0
                                     then float_pct
                                            (mask_sum
                                               (mask_and (map2 (\<lambda>t p. ts_le p t) target_dt pod_dt)
                                                  controllable))
                                            (mask_sum controllable)
                                     else gross_otp
                                else gross_otp)
                         in Inr (gross_otp, net_otp))"

section \<open>On-time columns and September figures of the sheet-aware script\<close>

text \<open>
  \<^verbatim>\<open>.dt.year\<close> and \<^verbatim>\<open>.dt.month\<close>: the civil date of a day number in the
  proleptic Gregorian calendar, day 0 being 1970-01-01.
\<close>

definition civil_from_days :: "int \<Rightarrow> int \<times> int \<times> int" where
  "civil_from_days z0 =
     (let z = z0 + 719468;
          era = z div 146097;
          doe = z - era * 146097;
          yoe = (doe - doe div 1460 + doe div 36524 - doe div 146096) div 365;
          doy = doe - (365 * yoe + yoe div 4 - yoe div 100);
          mp = (5 * doy + 2) div 153;
          d = doy - (153 * mp + 2) div 5 + 1;
          m = (if mp < 10 then mp + 3 else mp - 9);
          y = yoe + era * 400 + (if m \<le> 2 then 1 else 0)
      in (y, m, d))"

definition dt_year :: "timestamp \<Rightarrow> int" where
  "dt_year t = fst (civil_from_days \<lfloor>t\<rfloor>)"

definition dt_month :: "timestamp \<Rightarrow> int" where
  "dt_month t = fst (snd (civil_from_days \<lfloor>t\<rfloor>))"

text \<open>
  The columns \<open>add_otp_columns\<close> (part_000, lines 100 to 132) appends to a frame: \<^verbatim>\<open>_pod\<close>,
  \<^verbatim>\<open>_target\<close> and four flags. That script names a row controllable when its
  \<^verbatim>\<open>QC NAME\<close> text matches \<open>CTRL_REGEX\<close>. The proof-of-delivery column is
  normalized first, then the target column; an error of either leaves the function.
\<close>

record otp_row =
  pod_ts :: "timestamp option"
  target_ts :: "timestamp option"
  Is_Controllable :: bool
  On_Time_Gross :: bool
  Late :: bool
  On_Time_Net :: bool

definition make_otp_row :: "timestamp option \<Rightarrow> timestamp option \<Rightarrow> bool \<Rightarrow> otp_row" where
  "make_otp_row p t c =
     (let ok = (p \<noteq> None \<and> t \<noteq> None);
          on_time_gross = (if ok then ts_le p t else False);
          late = (\<not> on_time_gross)
      in \<lparr>pod_ts = p, target_ts = t, Is_Controllable = c, On_Time_Gross = on_time_gross,
          Late = late, On_Time_Net = (on_time_gross \<or> (late \<and> \<not> c))\<rparr>)"

definition add_otp_columns :: "dataframe \<Rightarrow> error + otp_row list" where
  "add_otp_columns df =
     (let n = length (rows df) in
      case (if has_column ''POD DATE/TIME'' df
            then excel_to_dt (map POD_DATE_TIME (rows df)) else Inr (replicate n None)) of
        Inl e \<Rightarrow> Inl e
      | Inr pod \<Rightarrow>
          case (if has_column ''UPD DEL'' df then excel_to_dt (map UPD_DEL (rows df))
                else if has_column ''QDT'' df then excel_to_dt (map QDT (rows df))
                else Inr (replicate n None)) of
            Inl e \<Rightarrow> Inl e
          | Inr target \<Rightarrow>
              let is_controllable =
                    (if has_column ''QC NAME'' df
                     then map (\<lambda>r. regex_search CTRL_REGEX (py_str (QC_NAME r))) (rows df)
                     else replicate n False)
              in Inr (map (\<lambda>(p, t, c). make_otp_row p t c)
                        (zip pod (zip target is_controllable))))"

text \<open>
  \<open>kpis_for_september\<close> (part_000, lines 156 to 177): volume and the two percentages (\<open>None\<close> is NaN); the sum of
  pieces is left out.
\<close>

record kpis =
  kpi_volume :: nat
  kpi_gross :: "rat option"
  kpi_net :: "rat option"

text \<open>\<^verbatim>\<open>flags.mean() * 100.0\<close> on a non-empty Boolean column.\<close>

definition mean_pct :: "bool list \<Rightarrow> rat" where
  "mean_pct flags = float_pct (mask_sum flags) (length flags)"

definition kpis_for_september :: "otp_row list \<Rightarrow> int option \<Rightarrow> kpis" where
  "kpis_for_september df year =
     (if df = [] then \<lparr>kpi_volume = 0, kpi_gross = None, kpi_net = None\<rparr>
      else
        let d1 = filter (\<lambda>r. pod_ts r \<noteq> None) df;
            d2 = filter (\<lambda>r. case pod_ts r of None \<Rightarrow> False | Some t \<Rightarrow> dt_month t = 9) d1;
            d = (case year of
                   None \<Rightarrow> d2
                 | Some y \<Rightarrow>
                     filter (\<lambda>r. case pod_ts r of None \<Rightarrow> False | Some t \<Rightarrow> dt_year t = y) d2);
            base = filter (\<lambda>r. target_ts r \<noteq> None) d
        in if base = [] then \<lparr>kpi_volume = length d, kpi_gross = None, kpi_net = None\<rparr>
           else
             let gross = mean_pct (map On_Time_Gross base);
                 net = mean_pct (map On_Time_Net base);
                 net' = (if net < gross then gross else net)
             in \<lparr>kpi_volume = length d, kpi_gross = Some gross, kpi_net = Some net'\<rparr>)"

section \<open>The three segments of one report (app1.py, lines 382 to 470)\<close>

text \<open>
  A workbook maps the names of its sheets to their frames. \<^verbatim>\<open>pd.concat\<close> puts
  the rows of several frames under the union of their columns and fills the cells of a
  column a frame does not have with NaN.
\<close>

type_synonym workbook = "string \<Rightarrow> dataframe option"

definition reindex :: "string list \<Rightarrow> row \<Rightarrow> row" where
  "reindex cols r =
     \<lparr>ACCT_NM = (if ''ACCT NM'' \<in> set cols then ACCT_NM r else PNaN),
      DEP = (if ''DEP'' \<in> set cols then DEP r else PNaN),
      ARR = (if ''ARR'' \<in> set cols then ARR r else PNaN),
      POD_DATE_TIME = (if ''POD DATE/TIME'' \<in> set cols then POD_DATE_TIME r else nan_cell),
      UPD_DEL = (if ''UPD DEL'' \<in> set cols then UPD_DEL r else nan_cell),
      QDT = (if ''QDT'' \<in> set cols then QDT r else nan_cell),
      QC = (if ''QC'' \<in> set cols then QC r else PNaN),
      QC_NAME = (if ''QC NAME'' \<in> set cols then QC_NAME r else PNaN)\<rparr>"

definition pd_concat :: "dataframe list \<Rightarrow> dataframe" where
  "pd_concat dfs =
     \<lparr>columns = foldl (\<lambda>acc c. if c \<in> set acc then acc else acc @ [c]) []
                  (concat (map columns dfs)),
      rows = concat (map (\<lambda>d. map (reindex (columns d)) (rows d)) dfs)\<rparr>"

text \<open>
  The loop \<^verbatim>\<open>for sheet in [...]: if sheet in available_sheets: ...\<close> that reads
  each sheet, applies the office filter and collects the frames.
\<close>

definition read_filtered :: "workbook \<Rightarrow> string list \<Rightarrow> dataframe list" where
  "read_filtered wb sheets =
     concat (map (\<lambda>sheet. case wb sheet of None \<Rightarrow> [] | Some df \<Rightarrow> [filter_by_ams df]) sheets)"

text \<open>
  The RP tab reads the sheet \<open>AMS\<close> and indexes its column \<^verbatim>\<open>ACCT NM\<close>
  without a check; a sheet without that column raises \<^verbatim>\<open>KeyError\<close> and the report
  ends with an error message.
\<close>

definition rp_df :: "workbook \<Rightarrow> error + dataframe" where
  "rp_df wb =
     (case wb ''AMS'' of
        None \<Rightarrow> Inr empty_frame
      | Some df_ams \<Rightarrow>
          if \<not> has_column ''ACCT NM'' df_ams then Inl (KeyError ''ACCT NM'')
          else Inr (df_ams\<lparr>rows := filter (\<lambda>r. isin (ACCT_NM r) RP_ACCOUNTS) (rows df_ams)\<rparr>))"

text \<open>
  The LFS and AVS tabs add a column holding the result of the keyword test, keep the rows
  where it is true, and then remove allow-listed names once more. The added column is
  listed among the columns; its value in every row kept is \<open>True\<close>.
\<close>

definition lfs_df :: "workbook \<Rightarrow> dataframe" where
  "lfs_df wb =
     (let lfs_dfs = read_filtered wb [''AMS'', ''Americas International Desk''] in
      if lfs_dfs = [] then empty_frame
      else
        let lfs_combined = pd_concat lfs_dfs in
        if has_column ''ACCT NM'' lfs_combined then
          \<lparr>columns = columns lfs_combined @ [''is_healthcare''],
           rows = filter (\<lambda>r. \<not> isin (ACCT_NM r) RP_ACCOUNTS)
                    (filter (\<lambda>r. is_healthcare (ACCT_NM r)) (rows lfs_combined))\<rparr>
        else empty_frame)"

definition avs_df :: "workbook \<Rightarrow> dataframe" where
  "avs_df wb =
     (let avs_dfs = read_filtered wb [''AMS'', ''Americas International Desk'', ''Aviation SVC''] in
      if avs_dfs = [] then empty_frame
      else
        let avs_combined = pd_concat avs_dfs in
        if has_column ''ACCT NM'' avs_combined then
          \<lparr>columns = columns avs_combined @ [''is_aviation''],
           rows = filter (\<lambda>r. \<not> isin (ACCT_NM r) RP_ACCOUNTS)
                    (filter (\<lambda>r. is_aviation (ACCT_NM r)) (rows avs_combined))\<rparr>
        else empty_frame)"

definition segments :: "workbook \<Rightarrow> error + (dataframe \<times> dataframe \<times> dataframe)" where
  "segments wb =
     (case rp_df wb of
        Inl e \<Rightarrow> Inl e
      | Inr rp \<Rightarrow> Inr (rp, lfs_df wb, avs_df wb))"

section \<open>The specification's reading of a record set\<close>

text \<open>
  The specification speaks of records that carry a normalized proof-of-delivery time, a
  normalized target time and a QC annotation. For a frame these are, per row, the entry of
  the normalized \<^verbatim>\<open>POD DATE/TIME\<close> column, the entry of the normalized target
  series, and the QC cell; a record of a frame without the column has none. Normalizing a
  column can fail, and then there are no records. The following definitions state the
  specification's counts over such records. They are not part of the scripts; the
  scripts' results are compared with them.
\<close>

definition normalized_column ::
    "string \<Rightarrow> (row \<Rightarrow> date_cell) \<Rightarrow> dataframe \<Rightarrow> error + timestamp option list" where
  "normalized_column name field df =
     (if has_column name df then excel_to_dt (map field (rows df))
      else Inr (replicate (length (rows df)) None))"

definition record_pods :: "dataframe \<Rightarrow> error + timestamp option list" where
  "record_pods df = normalized_column ''POD DATE/TIME'' POD_DATE_TIME df"

definition record_targets :: "dataframe \<Rightarrow> error + timestamp option list" where
  "record_targets df =
     (case get_target_series df of
        None \<Rightarrow> Inr (replicate (length (rows df)) None)
      | Some col \<Rightarrow> excel_to_dt col)"

text \<open>A record is the pair of its proof-of-delivery time and its target time.\<close>

definition record_valid :: "timestamp option \<times> timestamp option \<Rightarrow> bool" where
  "record_valid r = (fst r \<noteq> None \<and> snd r \<noteq> None)"

definition record_on_time :: "timestamp option \<times> timestamp option \<Rightarrow> bool" where
  "record_on_time r =
     (case r of (Some pod, Some target) \<Rightarrow> pod \<le> target | _ \<Rightarrow> False)"

definition count_where :: "('a \<Rightarrow> bool) \<Rightarrow> 'a list \<Rightarrow> nat" where
  "count_where P xs = length (filter P xs)"

text \<open>The exact quotient of two counts, times 100.\<close>

definition percentage :: "nat \<Rightarrow> nat \<Rightarrow> rat" where
  "percentage k n = of_nat k / of_nat n * 100"

text \<open>
  The non-controllable flag of every record under a given test of the QC cell; a frame
  without the column \<^verbatim>\<open>QC\<close> has no non-controllable record.
\<close>

definition record_non_controllable :: "(pyval \<Rightarrow> bool) \<Rightarrow> dataframe \<Rightarrow> bool list" where
  "record_non_controllable test df =
     (if has_column ''QC'' df then map (\<lambda>r. test (QC r)) (rows df)
      else replicate (length (rows df)) False)"

text \<open>
  The numbers of controllable valid records and of those among them that are on time.
\<close>

definition count_controllable_valid ::
    "(timestamp option \<times> timestamp option) list \<Rightarrow> bool list \<Rightarrow> nat" where
  "count_controllable_valid recs non_ctrl =
     count_where (\<lambda>(r, nc). record_valid r \<and> \<not> nc) (zip recs non_ctrl)"

definition count_controllable_on_time ::
    "(timestamp option \<times> timestamp option) list \<Rightarrow> bool list \<Rightarrow> nat" where
  "count_controllable_on_time recs non_ctrl =
     count_where (\<lambda>(r, nc). record_on_time r \<and> \<not> nc) (zip recs non_ctrl)"

text \<open>
  The per-record target in the specification's words: the normalized updated-delivery
  value of the record if that value is present and non-null, otherwise its normalized
  quoted delivery time.
\<close>

definition spec_record_targets :: "dataframe \<Rightarrow> error + timestamp option list" where
  "spec_record_targets df =
     (case normalized_column ''UPD DEL'' UPD_DEL df of
        Inl e \<Rightarrow> Inl e
      | Inr upd \<Rightarrow>
          case normalized_column ''QDT'' QDT df of
            Inl e \<Rightarrow> Inl e
          | Inr qdt \<Rightarrow>
              let present = map (\<lambda>r. has_column ''UPD DEL'' df \<and> notna (UPD_DEL r)) (rows df)
              in Inr (map (\<lambda>(p, u, q). if p then u else q) (zip present (zip upd qdt))))"

text \<open>
  The regular expressions are modelled on ASCII text, where the classes \<^verbatim>\<open>\b\<close> and
  \<^verbatim>\<open>\s\<close> of Python and the conversion to upper case are as defined above.
\<close>

definition is_ascii :: "char \<Rightarrow> bool" where
  "is_ascii c = (of_char c < (128 :: nat))"

definition ascii_cell :: "pyval \<Rightarrow> bool" where
  "ascii_cell v = list_all is_ascii (py_str v)"

section \<open>Example inputs\<close>

text \<open>
  Frames and workbooks used to evaluate the definitions on concrete inputs. \<open>stamp t\<close>
  is a cell of a column of type \<^verbatim>\<open>datetime64[ns]\<close> that holds the timestamp \<open>t\<close>;
  \<^verbatim>\<open>pd.to_numeric\<close> reads such a cell as its count of nanoseconds since 1970.
  \<open>serial n\<close> is a cell that holds the number \<open>n\<close> in a form calendar parsing rejects,
  such as the text \<^verbatim>\<open>"45200"\<close>. Day 19971 is 2024-09-05.
\<close>

definition stamp :: "timestamp \<Rightarrow> date_cell" where
  "stamp t =
     \<lparr>notna = True, as_datetime = Some t, as_serial = serial_of_number (t * ns_per_day)\<rparr>"

definition serial :: "rat \<Rightarrow> date_cell" where
  "serial n = \<lparr>notna = True, as_datetime = None, as_serial = serial_of_number n\<rparr>"

definition shipment :: "string \<Rightarrow> string \<Rightarrow> string \<Rightarrow> date_cell \<Rightarrow> date_cell \<Rightarrow> date_cell \<Rightarrow> pyval \<Rightarrow> row" where
  "shipment acct dep arr pod upd qdt qc =
     \<lparr>ACCT_NM = PStr acct, DEP = PStr dep, ARR = PStr arr, POD_DATE_TIME = pod,
      UPD_DEL = upd, QDT = qdt, QC = qc, QC_NAME = qc\<rparr>"

definition all_columns :: "string list" where
  "all_columns = [''ACCT NM'', ''DEP'', ''ARR'', ''POD DATE/TIME'', ''UPD DEL'', ''QDT'', ''QC'']"

text \<open>A sheet without the column \<^verbatim>\<open>ARR\<close>, and one with both office columns.\<close>

definition sheet_without_arr :: dataframe where
  "sheet_without_arr =
     \<lparr>columns = [''ACCT NM'', ''DEP'', ''POD DATE/TIME'', ''QDT''],
      rows = [shipment ''Sirtex Medical'' ''JFK'' [] (stamp 19971) nan_cell (stamp 19972) PNaN,
              shipment ''Storm Aviation'' ''LHR'' [] (stamp 19971) nan_cell (stamp 19970) PNaN]\<rparr>"

definition sheet_with_offices :: dataframe where
  "sheet_with_offices =
     \<lparr>columns = all_columns,
      rows = [shipment ''Sirtex Medical'' ''JFK'' ''LAX'' (stamp 19971) nan_cell (stamp 19972) PNaN,
              shipment ''Storm Aviation'' ''LHR'' ''ams'' (stamp 19971) nan_cell (stamp 19970) PNaN]\<rparr>"

text \<open>
  A workbook with two sheets. On day 19971 (2024-09-05) the first shipment is delivered
  at 10:00 against a target of 09:00.
\<close>

definition ams_sheet :: dataframe where
  "ams_sheet =
     \<lparr>columns = all_columns,
      rows = [shipment ''Marken Ltd'' ''AMS'' ''JFK''
                (stamp (19971 + 5 / 12)) (stamp (19971 + 3 / 8)) nan_cell (PStr []),
              shipment ''Leica Biosystems'' ''AMS'' ''ZRH''
                (stamp 19972) (stamp 19973) nan_cell (PStr ''Customs Hold''),
              shipment ''Lufthansa Cargo'' ''JFK'' ''AMS''
                (stamp 19971) (stamp 19972) nan_cell PNaN,
              shipment ''Bio Cargo'' ''AMS'' ''LHR''
                (stamp 19971) (stamp 19972) nan_cell PNaN,
              shipment ''Sirtex Medical'' ''JFK'' ''LAX''
                (stamp 19971) (stamp 19972) nan_cell PNaN]\<rparr>"

definition aviation_sheet :: dataframe where
  "aviation_sheet =
     \<lparr>columns = all_columns,
      rows = [shipment ''Storm Aviation'' ''LHR'' ''AMS''
                (stamp 19975) (stamp 19974) nan_cell (PStr ''Weather'')]\<rparr>"

definition example_workbook :: workbook where
  "example_workbook = [''AMS'' \<mapsto> ams_sheet, ''Aviation SVC'' \<mapsto> aviation_sheet]"

definition example_rp :: dataframe where
  "example_rp = ams_sheet\<lparr>rows := [hd (rows ams_sheet)]\<rparr>"

text \<open>
  A frame in which two rows have an updated delivery time and the third has only a quoted
  delivery time.
\<close>

definition mixed_targets :: dataframe where
  "mixed_targets =
     \<lparr>columns = all_columns,
      rows = [shipment ''Leica Biosystems'' ''AMS'' ''ZRH''
                (stamp 19971) (stamp 19972) (stamp 19970) PNaN,
              shipment ''Leica Biosystems'' ''AMS'' ''ZRH''
                (stamp 19971) (stamp 19973) (stamp 19970) PNaN,
              shipment ''Leica Biosystems'' ''AMS'' ''ZRH''
                (stamp 19971) nan_cell (stamp 19972) PNaN]\<rparr>"

text \<open>
  Three shipments with both times, one of them on time; no QC text matches a pattern.
  And a single shipment that is on time and held by customs.
\<close>

definition late_shipments :: dataframe where
  "late_shipments =
     \<lparr>columns = all_columns @ [''QC NAME''],
      rows = [shipment ''Marken Ltd'' ''AMS'' ''JFK''
                (stamp (19971 + 5 / 12)) (stamp (19971 + 3 / 8)) nan_cell PNaN,
              shipment ''Marken Ltd'' ''AMS'' ''JFK''
                (stamp 19972) (stamp 19973) nan_cell (PStr ''damaged box''),
              shipment ''Marken Ltd'' ''AMS'' ''JFK''
                (stamp 19975) (stamp 19974) nan_cell (PStr [])]\<rparr>"

definition customs_only :: dataframe where
  "customs_only =
     \<lparr>columns = all_columns,
      rows = [shipment ''Leica Biosystems'' ''AMS'' ''ZRH''
                (stamp 19972) (stamp 19973) nan_cell (PStr ''Customs Hold'')]\<rparr>"

text \<open>
  A column of type \<^verbatim>\<open>datetime64[ns]\<close> with one date and two empty cells, and a
  frame whose only updated delivery time is in that column.
\<close>

definition sparse_dates :: "date_cell list" where
  "sparse_dates = [stamp 19972, nan_cell, nan_cell]"

definition sparse_updates :: dataframe where
  "sparse_updates =
     \<lparr>columns = all_columns,
      rows = [shipment ''Marken Ltd'' ''AMS'' ''JFK''
                (stamp 19971) (stamp 19972) (stamp 19972) PNaN,
              shipment ''Marken Ltd'' ''AMS'' ''JFK''
                (stamp 19971) nan_cell (stamp 19972) PNaN,
              shipment ''Marken Ltd'' ''AMS'' ''JFK''
                (stamp 19971) nan_cell (stamp 19972) PNaN]\<rparr>"

text \<open>
  One hundred and sixty shipments with both times, the first twenty-three of them on time,
  and a column of text in which one cell holds a serial number and two cells are empty.
\<close>

definition share_23_of_160 :: dataframe where
  "share_23_of_160 =
     \<lparr>columns = all_columns,
      rows = replicate 23 (shipment ''Marken Ltd'' ''AMS'' ''JFK''
                             (stamp 19972) (stamp 19973) nan_cell PNaN) @
             replicate 137 (shipment ''Marken Ltd'' ''AMS'' ''JFK''
                              (stamp 19975) (stamp 19974) nan_cell PNaN)\<rparr>"

definition serial_text_column :: "date_cell list" where
  "serial_text_column = [serial 45200, nan_cell, nan_cell]"

section \<open>Properties of the account classifier\<close>

subsection \<open>Auxiliary facts about texts\<close>

lemma starts_with_set: "starts_with k s \<Longrightarrow> set k \<subseteq> set s"
  by (induction k s rule: starts_with.induct) auto

lemma py_in_set: "py_in k s \<Longrightarrow> set k \<subseteq> set s"
proof (induction k s rule: py_in.induct)
  case (1 k)
  then show ?case by simp
next
  case (2 k c cs)
  from 2(2) have "starts_with k (c # cs) \<or> py_in k cs" by simp
  then show ?case
  proof
    assume "starts_with k (c # cs)"
    then show ?thesis by (rule starts_with_set)
  next
    assume "py_in k cs"
    then have "set k \<subseteq> set cs" by (rule 2(1))
    then show ?thesis by auto
  qed
qed

lemma any_keyword_in_iff: "any_keyword_in ks s \<longleftrightarrow> (\<exists>k\<in>set ks. py_in k s)"
  by (induction ks) auto

lemma sub_insert: "x \<in> D \<Longrightarrow> A \<subseteq> D \<Longrightarrow> B = insert x A \<Longrightarrow> B \<subseteq> D"
  by blast

lemma digit_char_all: "\<forall>d\<in>set [0..<10]. digit_char d \<in> set ''-0123456789''"
  by code_simp

lemma digit_char_numeric: "d < 10 \<Longrightarrow> digit_char d \<in> set ''-0123456789''"
proof -
  assume "d < 10"
  then have "d \<in> set [0..<10]" by simp
  with digit_char_all show ?thesis by (rule bspec)
qed

lemma digits_numeric: "set (digits n) \<subseteq> set ''-0123456789''"
proof (induction n rule: digits.induct)
  case (1 n)
  show ?case
  proof (cases "n < 10")
    case True
    then have a: "digit_char n \<in> set ''-0123456789''" by (rule digit_char_numeric)
    from True have "digits n = [digit_char n]" by (subst digits.simps) simp
    then have b: "set (digits n) = insert (digit_char n) {}" by (simp only: list.set)
    have "{} \<subseteq> set ''-0123456789''" by (rule empty_subsetI)
    with a show ?thesis using b by (rule sub_insert)
  next
    case False
    have "n mod 10 < 10" by simp
    then have a: "digit_char (n mod 10) \<in> set ''-0123456789''" by (rule digit_char_numeric)
    from False have b: "set (digits (n div 10)) \<subseteq> set ''-0123456789''" by (rule 1)
    from False have "digits n = digits (n div 10) @ [digit_char (n mod 10)]"
      by (subst digits.simps) simp
    then have "set (digits n) = insert (digit_char (n mod 10)) (set (digits (n div 10)))"
      by (simp only: set_append list.set Un_insert_right Un_empty_right)
    with a b show ?thesis by (rule sub_insert)
  qed
qed

lemma minus_numeric: "CHR ''-'' \<in> set ''-0123456789''"
  by code_simp

lemma py_str_int_numeric: "set (py_str (PInt i)) \<subseteq> set ''-0123456789''"
proof (cases "i < 0")
  case True
  then have "py_str (PInt i) = CHR ''-'' # digits (nat (- i))" by (simp only: py_str.simps if_True)
  then have "set (py_str (PInt i)) = insert CHR ''-'' (set (digits (nat (- i))))"
    by (simp only: list.set)
  with minus_numeric digits_numeric show ?thesis by (rule sub_insert)
next
  case False
  then have "py_str (PInt i) = digits (nat i)" by (simp only: py_str.simps if_False)
  then show ?thesis by (simp only: digits_numeric)
qed

lemma lower_char_numeric_all: "\<forall>c\<in>set ''-0123456789''. lower_char c = c"
  by code_simp

lemma str_lower_numeric: "set s \<subseteq> set ''-0123456789'' \<Longrightarrow> str_lower s = s"
proof -
  assume a: "set s \<subseteq> set ''-0123456789''"
  have "map lower_char s = s"
  proof (rule map_idI)
    fix c assume "c \<in> set s"
    with a have "c \<in> set ''-0123456789''" by (rule subsetD)
    with lower_char_numeric_all show "lower_char c = c" by (rule bspec)
  qed
  then show ?thesis by (simp only: str_lower_def)
qed

lemma no_keyword_numeric:
  assumes "list_all (\<lambda>k. \<exists>c\<in>set k. c \<notin> set ''-0123456789'') ks"
      and "set s \<subseteq> set ''-0123456789''"
  shows "\<not> any_keyword_in ks s"
proof
  assume "any_keyword_in ks s"
  then obtain k where k: "k \<in> set ks" "py_in k s" unfolding any_keyword_in_iff by (rule bexE)
  from k(2) have "set k \<subseteq> set s" by (rule py_in_set)
  then have ks: "set k \<subseteq> set ''-0123456789''" using assms(2) by (rule subset_trans)
  from assms(1) k(1) have "\<exists>c\<in>set k. c \<notin> set ''-0123456789''"
    unfolding list_all_iff by (rule bspec)
  then obtain c where c: "c \<in> set k" "c \<notin> set ''-0123456789''" by (rule bexE)
  from ks c(1) have "c \<in> set ''-0123456789''" by (rule subsetD)
  with c(2) show False by (rule notE)
qed

lemma HEALTHCARE_not_numeric:
  "list_all (\<lambda>k. \<exists>c\<in>set k. c \<notin> set ''-0123456789'') HEALTHCARE_KEYWORDS"
  by code_simp

lemma AVIATION_not_numeric:
  "list_all (\<lambda>k. \<exists>c\<in>set k. c \<notin> set ''-0123456789'') AVIATION_KEYWORDS"
  by code_simp

lemma RP_ACCOUNTS_not_numeric:
  "list_all (\<lambda>k. \<exists>c\<in>set k. c \<notin> set ''-0123456789'') RP_ACCOUNTS"
  by code_simp

lemma HEALTHCARE_v1_not_numeric:
  "list_all (\<lambda>k. \<exists>c\<in>set k. c \<notin> set ''-0123456789'') HEALTHCARE_KEYWORDS_v1"
  by code_simp

lemma AVIATION_v1_not_numeric:
  "list_all (\<lambda>k. \<exists>c\<in>set k. c \<notin> set ''-0123456789'') AVIATION_KEYWORDS_v1"
  by code_simp

lemma list_ex_py_in: "list_ex (\<lambda>k. py_in k s) ks = any_keyword_in ks s"
  by (induction ks) auto

lemma numeric_not_allow_listed:
  assumes "set s \<subseteq> set ''-0123456789''"
  shows "s \<notin> set RP_ACCOUNTS"
proof
  assume "s \<in> set RP_ACCOUNTS"
  with RP_ACCOUNTS_not_numeric have "\<exists>c\<in>set s. c \<notin> set ''-0123456789''"
    unfolding list_all_iff by (rule bspec)
  then obtain c where c: "c \<in> set s" "c \<notin> set ''-0123456789''" by (rule bexE)
  from assms c(1) have "c \<in> set ''-0123456789''" by (rule subsetD)
  with c(2) show False by (rule notE)
qed

lemma RP_ACCOUNTS_nonempty: "[] \<notin> set RP_ACCOUNTS"
  by code_simp

lemma rp_account_not_keyword_classified:
  "is_rp_account v \<Longrightarrow> \<not> is_healthcare v \<and> \<not> is_aviation v"
  by (simp add: is_healthcare_def is_aviation_def)

lemma healthcare_aviation_exclusive: "is_healthcare v \<Longrightarrow> \<not> is_aviation v"
  by (simp add: is_healthcare_def is_aviation_def Let_def split: if_splits)

lemma isin_rp_account: "isin v RP_ACCOUNTS \<Longrightarrow> is_rp_account v"
proof (cases v)
  case (PStr s)
  assume "isin v RP_ACCOUNTS"
  with PStr have s: "s \<in> set RP_ACCOUNTS" by (simp add: isin_def)
  with RP_ACCOUNTS_nonempty have "s \<noteq> []" by auto
  with s PStr show ?thesis by (simp add: is_rp_account_def)
qed (simp_all add: isin_def)

section \<open>Properties of the floating-point percentages\<close>

text \<open>
  Rounding to the nearest float keeps 0, 1 and 100 and does not cross an integer that is a
  multiple of the spacing of the floats around the argument. Hence the percentage of
  \<open>k\<close> out of \<open>n\<close> is exactly 100 for \<open>k = n\<close>, exactly 0 for \<open>k = 0\<close>, and never above 100.
\<close>

lemma fl_0: "fl 0 = 0"
  by (simp add: fl_def)

lemma fl_1: "fl 1 = 1"
  by code_simp

lemma fl_100: "fl 100 = 100"
  by code_simp

lemma round_half_even_le: "x \<le> of_int n \<Longrightarrow> round_half_even x \<le> n"
  unfolding round_half_even_def Let_def
  by (auto simp: floor_le_iff le_floor_iff)

lemma round_half_even_nonneg: "0 \<le> x \<Longrightarrow> 0 \<le> round_half_even x"
  unfolding round_half_even_def Let_def
  by (auto simp: floor_le_iff le_floor_iff) 

lemma pow2_pos: "0 < pow2 e"
  by (simp add: pow2_def)

lemma binade_le_52:
  assumes "0 < x" "x \<le> 100"
  shows "binade x \<le> 52"
proof (cases "1 \<le> x")
  case True
  from assms(2) have "\<lfloor>x\<rfloor> \<le> 100" by (simp add: floor_le_iff)
  then have "bitlen \<lfloor>x\<rfloor> \<le> 7" by (simp add: bitlen_le_iff_power)
  then show ?thesis using True by (simp add: binade_def)
next
  case False
  have "0 \<le> bitlen \<lfloor>1 / x\<rfloor>" by (rule bitlen_nonneg)
  then show ?thesis using False by (simp add: binade_def Let_def)
qed

lemma fl_nonneg: "0 \<le> x \<Longrightarrow> 0 \<le> fl x"
  by (auto simp: fl_def Let_def sgn_if intro!: mult_nonneg_nonneg round_half_even_nonneg
      divide_nonneg_pos pow2_pos less_imp_le [OF pow2_pos])

lemma fl_le:
  assumes "0 < x" "x \<le> of_int c" "binade x \<le> 52"
  shows "fl x \<le> of_int c"
proof -
  define k where "k = nat (52 - binade x)"
  have q: "pow2 (binade x - 52) = 1 / 2 ^ k"
    using assms(1,3) by (cases "binade x = 52") (simp_all add: pow2_def k_def)
  have "x * 2 ^ k \<le> of_int c * 2 ^ k" using assms(2) by (simp add: mult_right_mono)
  also have "\<dots> = of_int (c * 2 ^ k)" by simp
  finally have "round_half_even (x * 2 ^ k) \<le> c * 2 ^ k" by (rule round_half_even_le)
  then have "(of_int (round_half_even (x * 2 ^ k)) :: rat) \<le> of_int (c * 2 ^ k)"
    by (simp only: of_int_le_iff)
  then have "(of_int (round_half_even (x * 2 ^ k)) :: rat) / 2 ^ k \<le> of_int c"
    by (simp add: divide_le_eq)
  with assms(1) show ?thesis by (simp add: fl_def Let_def q)
qed

lemma float_pct_0: "float_pct 0 n = 0"
  by (simp add: float_pct_def fl_0)

lemma float_pct_same: "0 < n \<Longrightarrow> float_pct n n = 100"
  by (simp add: float_pct_def fl_1 fl_100)

lemma float_pct_le:
  assumes "k \<le> n" "0 < n"
  shows "float_pct k n \<le> 100"
proof (cases "k = 0")
  case True
  then show ?thesis by (simp add: float_pct_0)
next
  case False
  define x :: rat where "x = of_nat k / of_nat n"
  from False assms have x0: "0 < x" by (simp add: x_def)
  from assms have x1: "x \<le> 1" by (simp add: x_def divide_le_eq)
  then have "x \<le> 100" by simp
  with x0 have "binade x \<le> 52" by (rule binade_le_52)
  with x0 x1 have y1: "fl x \<le> 1" using fl_le [of x 1] by simp
  from x0 have y0: "0 \<le> fl x" by (intro fl_nonneg) simp
  show ?thesis
  proof (cases "fl x = 0")
    case True
    then show ?thesis by (simp add: float_pct_def x_def [symmetric] fl_0)
  next
    case False
    with y0 have p: "0 < fl x * 100" by simp
    from y1 have le: "fl x * 100 \<le> of_int 100" by simp
    then have "fl x * 100 \<le> 100" by simp
    with p have "binade (fl x * 100) \<le> 52" by (rule binade_le_52)
    with p le have "fl (fl x * 100) \<le> of_int 100" by (rule fl_le)
    then show ?thesis by (simp add: float_pct_def x_def)
  qed
qed

text \<open>
  The float percentage of 23 out of 160 lies below the exact 14.375 and both roundings take
  it to 14.37. The two roundings differ on the percentage of 1 out of 20000: the product
  with 100 is the float 0.5, which numpy rounds to the even integer 0, while the float
  itself lies above 0.005 and CPython rounds it to 0.01.
\<close>

lemma float_pct_23_of_160:
  "float_pct 23 160 = 8092405580431359 / 562949953421312 \<and> float_pct 23 160 < 14375 / 1000"
proof -
  have q: "fl (23 / 160) = 2589569785738035 / 18014398509481984" by code_simp
  have p: "float_pct 23 160 = 8092405580431359 / 562949953421312"
    unfolding float_pct_def of_nat_numeral q by code_simp
  then show ?thesis by simp
qed

lemma round_23_of_160:
  "np_round2 (float_pct 23 160) = fl (1437 / 100) \<and>
   py_round2 (float_pct 23 160) = fl (1437 / 100)"
proof -
  have "np_round2 (8092405580431359 / 562949953421312) = fl (1437 / 100)" by code_simp
  moreover have "py_round2 (8092405580431359 / 562949953421312) = fl (1437 / 100)"
    by code_simp
  ultimately show ?thesis by (simp only: float_pct_23_of_160 simp_thms)
qed

lemma roundings_differ:
  "float_pct 1 20000 = 5764607523034235 / 1152921504606846976 \<and>
   np_round2 (float_pct 1 20000) = 0 \<and>
   py_round2 (float_pct 1 20000) = fl (1 / 100)"
proof -
  have q: "fl (1 / 20000) = 7378697629483821 / 147573952589676412928" by code_simp
  have p: "float_pct 1 20000 = 5764607523034235 / 1152921504606846976"
    unfolding float_pct_def of_nat_1 of_nat_numeral q by code_simp
  have "np_round2 (5764607523034235 / 1152921504606846976) = 0" by code_simp
  moreover have "py_round2 (5764607523034235 / 1152921504606846976) = fl (1 / 100)"
    by code_simp
  ultimately show ?thesis by (simp only: p simp_thms)
qed

subsection \<open>Allow-listed accounts\<close>

text \<open>
  Claim C1. In app1.py the allow-list is matched exactly; no function of that script trims
  the account name. Every account name that is equal, character for character, to an entry
  of \<open>RP_ACCOUNTS\<close> is an RP account for \<open>is_rp_account\<close> and for the
  \<^verbatim>\<open>isin\<close> filter of the RP tab, and neither \<open>is_healthcare\<close> nor
  \<open>is_aviation\<close> accepts it, whatever keywords the name contains.
\<close>

theorem allow_listed_exact_is_radiopharma:
  "n \<in> set RP_ACCOUNTS \<Longrightarrow>
     is_rp_account (PStr n) \<and> isin (PStr n) RP_ACCOUNTS \<and>
     \<not> is_healthcare (PStr n) \<and> \<not> is_aviation (PStr n)"
proof -
  assume n: "n \<in> set RP_ACCOUNTS"
  then have i: "isin (PStr n) RP_ACCOUNTS" by (simp add: isin_def)
  then have r: "is_rp_account (PStr n)" by (rule isin_rp_account)
  from r have "\<not> is_healthcare (PStr n) \<and> \<not> is_aviation (PStr n)"
    by (rule rp_account_not_keyword_classified)
  with i r show ?thesis by (simp only: simp_thms)
qed

text \<open>
  The allow-listed name below contains the aviation keywords \<open>universal\<close> and
  \<open>pictures\<close>.
\<close>

theorem allow_listed_exact_is_radiopharma_witness:
  "''UNIVERSAL PICTURES INTERNATIONAL NETHERLANDS'' \<in> set RP_ACCOUNTS \<and>
   any_keyword_in AVIATION_KEYWORDS (str_lower ''UNIVERSAL PICTURES INTERNATIONAL NETHERLANDS'') \<and>
   (is_rp_account (PStr ''UNIVERSAL PICTURES INTERNATIONAL NETHERLANDS'') \<and>
    isin (PStr ''UNIVERSAL PICTURES INTERNATIONAL NETHERLANDS'') RP_ACCOUNTS \<and>
    \<not> is_healthcare (PStr ''UNIVERSAL PICTURES INTERNATIONAL NETHERLANDS'') \<and>
    \<not> is_aviation (PStr ''UNIVERSAL PICTURES INTERNATIONAL NETHERLANDS''))"
proof -
  have h: "''UNIVERSAL PICTURES INTERNATIONAL NETHERLANDS'' \<in> set RP_ACCOUNTS"
    by code_simp
  have k: "any_keyword_in AVIATION_KEYWORDS
             (str_lower ''UNIVERSAL PICTURES INTERNATIONAL NETHERLANDS'')"
    by code_simp
  from k allow_listed_exact_is_radiopharma [OF h] have "
     any_keyword_in AVIATION_KEYWORDS
       (str_lower ''UNIVERSAL PICTURES INTERNATIONAL NETHERLANDS'') \<and>
     (is_rp_account (PStr ''UNIVERSAL PICTURES INTERNATIONAL NETHERLANDS'') \<and>
      isin (PStr ''UNIVERSAL PICTURES INTERNATIONAL NETHERLANDS'') RP_ACCOUNTS \<and>
      \<not> is_healthcare (PStr ''UNIVERSAL PICTURES INTERNATIONAL NETHERLANDS'') \<and>
      \<not> is_aviation (PStr ''UNIVERSAL PICTURES INTERNATIONAL NETHERLANDS''))"
    by (rule conjI)
  with h show ?thesis by (rule conjI)
qed

text \<open>
  With a leading blank the name is no longer found in the allow-list, although trimming
  it gives an entry; the keyword \<open>marken\<close> then makes it a healthcare account.
\<close>

theorem trimmed_allow_listed_counterexample:
  "str_strip '' Marken Ltd'' \<in> set RP_ACCOUNTS \<and>
   \<not> is_rp_account (PStr '' Marken Ltd'') \<and>
   \<not> isin (PStr '' Marken Ltd'') RP_ACCOUNTS \<and>
   is_healthcare (PStr '' Marken Ltd'')"
  by code_simp

subsection \<open>Names that match both keyword lists\<close>

text \<open>
  Claim C3. In app1.py each keyword test first looks for a keyword of the other list and
  rejects the name when it finds one. A name whose lower-case form contains an aviation
  keyword and a healthcare keyword is therefore rejected by both tests: it is neither an
  aviation nor a healthcare account, allow-listed or not.
\<close>

theorem both_keyword_lists_exclude:
  "any_keyword_in AVIATION_KEYWORDS (str_lower (py_str v)) \<Longrightarrow>
   any_keyword_in HEALTHCARE_KEYWORDS (str_lower (py_str v)) \<Longrightarrow>
   \<not> is_aviation v \<and> \<not> is_healthcare v"
  by (simp add: is_aviation_def is_healthcare_def Let_def)

theorem both_keyword_lists_exclude_witness:
  "any_keyword_in AVIATION_KEYWORDS (str_lower (py_str (PStr ''Bio Cargo''))) \<and>
   any_keyword_in HEALTHCARE_KEYWORDS (str_lower (py_str (PStr ''Bio Cargo''))) \<and>
   (\<not> is_aviation (PStr ''Bio Cargo'') \<and> \<not> is_healthcare (PStr ''Bio Cargo''))"
proof -
  have a: "any_keyword_in AVIATION_KEYWORDS (str_lower (py_str (PStr ''Bio Cargo'')))"
    by code_simp
  have h: "any_keyword_in HEALTHCARE_KEYWORDS (str_lower (py_str (PStr ''Bio Cargo'')))"
    by code_simp
  from h both_keyword_lists_exclude [OF a h] have
    "any_keyword_in HEALTHCARE_KEYWORDS (str_lower (py_str (PStr ''Bio Cargo''))) \<and>
     (\<not> is_aviation (PStr ''Bio Cargo'') \<and> \<not> is_healthcare (PStr ''Bio Cargo''))"
    by (rule conjI)
  with a show ?thesis by (rule conjI)
qed

text \<open>
  The name \<open>Bio Cargo\<close> is not allow-listed and contains \<open>cargo\<close> and \<open>bio\<close>;
  it is not an aviation account.
\<close>

theorem aviation_wins_tie_counterexample:
  "\<not> is_rp_account (PStr ''Bio Cargo'') \<and>
   any_keyword_in AVIATION_KEYWORDS (str_lower ''Bio Cargo'') \<and>
   any_keyword_in HEALTHCARE_KEYWORDS (str_lower ''Bio Cargo'') \<and>
   \<not> is_aviation (PStr ''Bio Cargo'')"
  by code_simp

subsection \<open>Empty and non-text account cells\<close>

text \<open>
  What \<open>str\<close> makes of a cell that is empty or not a text contains no keyword of either
  script and is no allow-list entry.
\<close>

lemma no_keyword_None:
  "\<not> any_keyword_in HEALTHCARE_KEYWORDS (str_lower ''None'') \<and>
   \<not> any_keyword_in AVIATION_KEYWORDS (str_lower ''None'') \<and>
   \<not> any_keyword_in HEALTHCARE_KEYWORDS_v1 (str_lower ''None'') \<and>
   \<not> any_keyword_in AVIATION_KEYWORDS_v1 (str_lower ''None'') \<and>
   ''None'' \<notin> set RP_ACCOUNTS"
  by code_simp

lemma no_keyword_nan:
  "\<not> any_keyword_in HEALTHCARE_KEYWORDS (str_lower ''nan'') \<and>
   \<not> any_keyword_in AVIATION_KEYWORDS (str_lower ''nan'') \<and>
   \<not> any_keyword_in HEALTHCARE_KEYWORDS_v1 (str_lower ''nan'') \<and>
   \<not> any_keyword_in AVIATION_KEYWORDS_v1 (str_lower ''nan'') \<and>
   ''nan'' \<notin> set RP_ACCOUNTS"
  by code_simp

lemma no_keyword_True:
  "\<not> any_keyword_in HEALTHCARE_KEYWORDS (str_lower ''True'') \<and>
   \<not> any_keyword_in AVIATION_KEYWORDS (str_lower ''True'') \<and>
   \<not> any_keyword_in HEALTHCARE_KEYWORDS_v1 (str_lower ''True'') \<and>
   \<not> any_keyword_in AVIATION_KEYWORDS_v1 (str_lower ''True'') \<and>
   ''True'' \<notin> set RP_ACCOUNTS"
  by code_simp

lemma no_keyword_False:
  "\<not> any_keyword_in HEALTHCARE_KEYWORDS (str_lower ''False'') \<and>
   \<not> any_keyword_in AVIATION_KEYWORDS (str_lower ''False'') \<and>
   \<not> any_keyword_in HEALTHCARE_KEYWORDS_v1 (str_lower ''False'') \<and>
   \<not> any_keyword_in AVIATION_KEYWORDS_v1 (str_lower ''False'') \<and>
   ''False'' \<notin> set RP_ACCOUNTS"
  by code_simp

lemma no_keyword_empty:
  "\<not> any_keyword_in HEALTHCARE_KEYWORDS (str_lower []) \<and>
   \<not> any_keyword_in AVIATION_KEYWORDS (str_lower []) \<and>
   \<not> any_keyword_in HEALTHCARE_KEYWORDS_v1 (str_lower []) \<and>
   \<not> any_keyword_in AVIATION_KEYWORDS_v1 (str_lower []) \<and>
   [] \<notin> set RP_ACCOUNTS"
  by code_simp

lemma no_keyword_int:
  "\<not> any_keyword_in HEALTHCARE_KEYWORDS (str_lower (py_str (PInt i))) \<and>
   \<not> any_keyword_in AVIATION_KEYWORDS (str_lower (py_str (PInt i))) \<and>
   \<not> any_keyword_in HEALTHCARE_KEYWORDS_v1 (str_lower (py_str (PInt i))) \<and>
   \<not> any_keyword_in AVIATION_KEYWORDS_v1 (str_lower (py_str (PInt i))) \<and>
   py_str (PInt i) \<notin> set RP_ACCOUNTS"
proof -
  have n: "set (py_str (PInt i)) \<subseteq> set ''-0123456789''" by (rule py_str_int_numeric)
  then have l: "str_lower (py_str (PInt i)) = py_str (PInt i)" by (rule str_lower_numeric)
  have "\<not> any_keyword_in HEALTHCARE_KEYWORDS (py_str (PInt i))"
    using HEALTHCARE_not_numeric n by (rule no_keyword_numeric)
  moreover have "\<not> any_keyword_in AVIATION_KEYWORDS (py_str (PInt i))"
    using AVIATION_not_numeric n by (rule no_keyword_numeric)
  moreover have "\<not> any_keyword_in HEALTHCARE_KEYWORDS_v1 (py_str (PInt i))"
    using HEALTHCARE_v1_not_numeric n by (rule no_keyword_numeric)
  moreover have "\<not> any_keyword_in AVIATION_KEYWORDS_v1 (py_str (PInt i))"
    using AVIATION_v1_not_numeric n by (rule no_keyword_numeric)
  moreover have "py_str (PInt i) \<notin> set RP_ACCOUNTS"
    using n by (rule numeric_not_allow_listed)
  ultimately show ?thesis unfolding l by (simp only: simp_thms)
qed

lemma empty_or_nontext_no_keyword:
  assumes "v = PStr [] \<or> \<not> is_str v"
  shows "\<not> any_keyword_in HEALTHCARE_KEYWORDS (str_lower (py_str v)) \<and>
         \<not> any_keyword_in AVIATION_KEYWORDS (str_lower (py_str v)) \<and>
         \<not> any_keyword_in HEALTHCARE_KEYWORDS_v1 (str_lower (py_str v)) \<and>
         \<not> any_keyword_in AVIATION_KEYWORDS_v1 (str_lower (py_str v)) \<and>
         py_str v \<notin> set RP_ACCOUNTS"
proof (cases v)
  case PNone
  then have "py_str v = ''None''" by (simp only: py_str.simps)
  then show ?thesis using no_keyword_None by (simp only: simp_thms)
next
  case PNaN
  then have "py_str v = ''nan''" by (simp only: py_str.simps)
  then show ?thesis using no_keyword_nan by (simp only: simp_thms)
next
  case (PBool b)
  show ?thesis
  proof (cases b)
    case True
    with PBool have "py_str v = ''True''" by (simp only: py_str.simps if_True)
    then show ?thesis using no_keyword_True by (simp only: simp_thms)
  next
    case False
    with PBool have "py_str v = ''False''" by (simp only: py_str.simps if_False)
    then show ?thesis using no_keyword_False by (simp only: simp_thms)
  qed
next
  case (PInt i)
  then show ?thesis using no_keyword_int [of i] by (simp only: simp_thms)
next
  case (PStr s)
  with assms have "s = []" by simp
  with PStr have "py_str v = []" by (simp only: py_str.simps)
  then show ?thesis using no_keyword_empty by (simp only: simp_thms)
qed

text \<open>
  Claim C9. In app1.py an account cell that is the empty text or not a text at all is
  accepted by none of \<open>is_rp_account\<close>, the \<^verbatim>\<open>isin\<close> filter,
  \<open>is_healthcare\<close> and \<open>is_aviation\<close>; these are total functions, no branch of
  them raises. The sheet-aware script's helper \<open>contains_any\<close> answers no for every
  value that is not a text, and its two row tests reject such a cell on every sheet but
  one: a row read from the sheet \<open>Aviation SVC\<close> is an aviation row by provenance,
  whatever its account cell holds.
\<close>

theorem empty_or_nontext_account_unclassified:
  assumes "v = PStr [] \<or> \<not> is_str v"
  shows "(\<not> is_rp_account v \<and> \<not> isin v RP_ACCOUNTS \<and>
          \<not> is_healthcare v \<and> \<not> is_aviation v) \<and>
         (\<not> is_str v \<longrightarrow> \<not> contains_any v keywords) \<and>
         (Source_Sheet \<noteq> ''Aviation SVC'' \<longrightarrow>
            \<not> lfs_keep_v1 v Source_Sheet \<and> \<not> avs_keep_v1 v Source_Sheet) \<and>
         (avs_keep_v1 v ''Aviation SVC'' \<and> \<not> lfs_keep_v1 v ''Aviation SVC'')"
proof -
  note k = empty_or_nontext_no_keyword [OF assms]
  from k have rp: "\<not> is_rp_account v" by (simp add: is_rp_account_def)
  then have "\<not> isin v RP_ACCOUNTS" using isin_rp_account by blast
  moreover from k have "\<not> is_healthcare v" "\<not> is_aviation v"
    by (simp_all add: is_healthcare_def is_aviation_def Let_def)
  moreover have "\<not> is_str v \<longrightarrow> \<not> contains_any v keywords"
    by (cases v) (simp_all add: contains_any_def)
  moreover from k have
    "Source_Sheet \<noteq> ''Aviation SVC'' \<longrightarrow>
       \<not> lfs_keep_v1 v Source_Sheet \<and> \<not> avs_keep_v1 v Source_Sheet"
    by (simp add: lfs_keep_v1_def avs_keep_v1_def is_healthcare_v1_def is_aviation_v1_def
        contains_any_def list_ex_py_in Let_def)
  moreover have "avs_keep_v1 v ''Aviation SVC'' \<and> \<not> lfs_keep_v1 v ''Aviation SVC''"
    by (simp add: lfs_keep_v1_def avs_keep_v1_def is_healthcare_v1_def is_aviation_v1_def
        Let_def)
  ultimately show ?thesis using rp by (simp only: simp_thms)
qed

theorem empty_or_nontext_account_unclassified_witness:
  "\<not> is_str PNaN \<and>
   (\<not> is_rp_account PNaN \<and> \<not> isin PNaN RP_ACCOUNTS \<and>
    \<not> is_healthcare PNaN \<and> \<not> is_aviation PNaN) \<and>
   \<not> contains_any PNaN HEALTHCARE_KEYWORDS_v1 \<and>
   (\<not> lfs_keep_v1 PNaN ''AMS'' \<and> \<not> avs_keep_v1 PNaN ''AMS'') \<and>
   (avs_keep_v1 PNaN ''Aviation SVC'' \<and> \<not> lfs_keep_v1 PNaN ''Aviation SVC'')"
proof -
  have s: "\<not> is_str PNaN" by simp
  then have h: "PNaN = PStr [] \<or> \<not> is_str PNaN" by (rule disjI2)
  have n: "''AMS'' \<noteq> ''Aviation SVC''" by simp
  from empty_or_nontext_account_unclassified [OF h, of HEALTHCARE_KEYWORDS_v1 "''AMS''"] s n
  show ?thesis by blast
qed

text \<open>
  On the sheet \<open>Aviation SVC\<close> of the sheet-aware script a row with an empty account
  name passes the aviation test and joins the AVS segment.
\<close>

theorem empty_account_aviation_sheet_counterexample:
  "is_aviation_v1 (PStr []) (Some ''Aviation SVC'') \<and>
   \<not> is_healthcare_v1 (PStr []) (Some ''Aviation SVC'') \<and>
   avs_keep_v1 (PStr []) ''Aviation SVC''"
  by code_simp

section \<open>Properties of the office filter\<close>

text \<open>
  Claim C10. \<open>filter_by_ams\<close> of app1.py filters only a frame that has both columns
  \<^verbatim>\<open>DEP\<close> and \<^verbatim>\<open>ARR\<close>. A frame that lacks one of them is returned as it
  is, and the loop that reads the sheets for the LFS and AVS tabs passes it on with all its
  rows.
\<close>

theorem filter_by_ams_needs_both_columns:
  "(\<not> has_column ''DEP'' df \<or> \<not> has_column ''ARR'' df \<longrightarrow> filter_by_ams df = df) \<and>
   (has_column ''DEP'' df \<and> has_column ''ARR'' df \<longrightarrow>
      columns (filter_by_ams df) = columns df \<and>
      rows (filter_by_ams df) =
        filter (\<lambda>r. contains_AMS (DEP r) \<or> contains_AMS (ARR r)) (rows df)) \<and>
   (wb sheet = Some df \<and> (\<not> has_column ''DEP'' df \<or> \<not> has_column ''ARR'' df) \<longrightarrow>
      read_filtered wb [sheet] = [df])"
  by (auto simp: filter_by_ams_def df_empty_def read_filtered_def has_column_def)

theorem filter_by_ams_needs_both_columns_witness:
  "(\<not> has_column ''ARR'' sheet_without_arr \<and>
    filter_by_ams sheet_without_arr = sheet_without_arr \<and>
    read_filtered [''AMS'' \<mapsto> sheet_without_arr] [''AMS''] = [sheet_without_arr]) \<and>
   ((has_column ''DEP'' sheet_with_offices \<and> has_column ''ARR'' sheet_with_offices) \<and>
    map ACCT_NM (rows (filter_by_ams sheet_with_offices)) = [PStr ''Storm Aviation''])"
proof -
  have h1: "\<not> has_column ''ARR'' sheet_without_arr" by code_simp
  have w: "[''AMS'' \<mapsto> sheet_without_arr] ''AMS'' = Some sheet_without_arr" by simp
  have h2: "has_column ''DEP'' sheet_with_offices \<and> has_column ''ARR'' sheet_with_offices"
    by code_simp
  have f: "map ACCT_NM (filter (\<lambda>r. contains_AMS (DEP r) \<or> contains_AMS (ARR r))
             (rows sheet_with_offices)) = [PStr ''Storm Aviation'']"
    by code_simp
  from filter_by_ams_needs_both_columns
         [of sheet_without_arr "[''AMS'' \<mapsto> sheet_without_arr]" "''AMS''"] h1 w
  have a: "filter_by_ams sheet_without_arr = sheet_without_arr \<and>
           read_filtered [''AMS'' \<mapsto> sheet_without_arr] [''AMS''] = [sheet_without_arr]"
    by blast
  from filter_by_ams_needs_both_columns [of sheet_with_offices Map.empty "[]"] h2
  have "rows (filter_by_ams sheet_with_offices) =
          filter (\<lambda>r. contains_AMS (DEP r) \<or> contains_AMS (ARR r)) (rows sheet_with_offices)"
    by blast
  with f have b: "map ACCT_NM (rows (filter_by_ams sheet_with_offices)) = [PStr ''Storm Aviation'']"
    by (simp only:)
  from h1 a h2 b show ?thesis by blast
qed

section \<open>Properties of the Date Normalizer\<close>

lemma length_serial_dates: "serial_dates s = Inr ts \<Longrightarrow> length ts = length s"
  by (auto simp: serial_dates_def split: if_splits)

lemma length_excel_to_dt: "excel_to_dt s = Inr ts \<Longrightarrow> length ts = length s"
  by (auto simp: excel_to_dt_def pd_to_datetime_def Let_def
      split: if_splits sum.splits dest: length_serial_dates)

lemma excel_to_dt_nan:
  assumes "excel_to_dt s = Inr ts" "i < length s" "s ! i = nan_cell"
  shows "ts ! i = None"
proof (cases "case isna_mean (pd_to_datetime s) of None \<Rightarrow> False | Some m \<Rightarrow> m > 1 / 2")
  case True
  with assms(1) obtain out2 where o: "serial_dates s = Inr out2"
    and ts: "ts = map2 (\<lambda>o1 o2. if o1 \<noteq> None then o1 else o2) (pd_to_datetime s) out2"
    by (auto simp: excel_to_dt_def Let_def split: sum.splits)
  from o have l: "length out2 = length s" by (rule length_serial_dates)
  from o have "out2 = map (\<lambda>c. case as_serial c of Serial t \<Rightarrow> Some t | _ \<Rightarrow> None) s"
    by (auto simp: serial_dates_def split: if_splits)
  with assms(2,3) have "out2 ! i = None" by (simp add: nan_cell_def)
  with assms(2,3) l show ?thesis by (simp add: ts pd_to_datetime_def nan_cell_def)
next
  case False
  with assms(1) have "ts = pd_to_datetime s" by (auto simp: excel_to_dt_def Let_def)
  with assms(2,3) show ?thesis by (simp add: pd_to_datetime_def nan_cell_def)
qed

text \<open>
  When no value overflows the normalizer returns, position by position, the calendar
  reading or, if more than half of the calendar readings are null, the calendar reading
  where there is one and the serial reading elsewhere.
\<close>

lemma excel_to_dt_without_overflow:
  assumes "\<not> list_ex (\<lambda>c. as_serial c = Overflows) s"
  shows "excel_to_dt s =
           Inr (map (\<lambda>c. if (case isna_mean (pd_to_datetime s) of
                                None \<Rightarrow> False | Some m \<Rightarrow> m > 1 / 2)
                          then (case as_datetime c of
                                  Some t \<Rightarrow> Some t
                                | None \<Rightarrow> (case as_serial c of Serial t \<Rightarrow> Some t | _ \<Rightarrow> None))
                          else as_datetime c) s)"
proof -
  have "map2 (\<lambda>o1 o2. if o1 \<noteq> None then o1 else o2) (map as_datetime s)
          (map (\<lambda>c. case as_serial c of Serial t \<Rightarrow> Some t | _ \<Rightarrow> None) s) =
        map (\<lambda>c. case as_datetime c of
                    Some t \<Rightarrow> Some t
                  | None \<Rightarrow> (case as_serial c of Serial t \<Rightarrow> Some t | _ \<Rightarrow> None)) s"
    by (induction s) (auto split: option.splits)
  with assms show ?thesis
    by (simp add: excel_to_dt_def serial_dates_def Let_def pd_to_datetime_def)
qed

text \<open>
  In a column of text with the serial number 45200 and two empty cells the serial reading
  applies and gives day 19631, which is 2023-10-01, the day 45200 days after 1899-12-30.
\<close>

lemma serial_reading_of_text_column:
  "pd_to_datetime serial_text_column = [None, None, None] \<and>
   excel_to_dt serial_text_column = Inr [Some 19631, None, None] \<and>
   excel_epoch + 45200 = 19631"
  by code_simp

text \<open>
  Claim C8. The specification has the Date Normalizer return a sequence of the length of
  its input, a value that fails both readings becoming null rather than an error. On a
  column of type \<^verbatim>\<open>datetime64[ns]\<close> with one date and two empty cells calendar
  parsing leaves two of three values null, the serial reading is tried, the date is read
  as a number of days that overflows, and \<open>excel_to_dt\<close> ends with an error instead of
  returning the three values.
\<close>

theorem date_normalizer_raises_on_sparse_dates:
  "pd_to_datetime sparse_dates = [Some 19972, None, None] \<and>
   map as_serial sparse_dates = [Overflows, NotANumber, NotANumber] \<and>
   excel_to_dt sparse_dates = Inl OutOfBoundsTimedelta"
  by code_simp

section \<open>Properties of the segments\<close>

lemma rp_df_rows:
  "rp_df wb = Inr rp \<Longrightarrow> r \<in> set (rows rp) \<Longrightarrow> isin (ACCT_NM r) RP_ACCOUNTS"
  by (auto simp: rp_df_def empty_frame_def split: option.splits if_splits)

lemma lfs_df_rows:
  "r \<in> set (rows (lfs_df wb)) \<Longrightarrow> is_healthcare (ACCT_NM r) \<and> \<not> isin (ACCT_NM r) RP_ACCOUNTS"
  by (auto simp: lfs_df_def empty_frame_def Let_def split: if_splits)

lemma avs_df_rows:
  "r \<in> set (rows (avs_df wb)) \<Longrightarrow> is_aviation (ACCT_NM r) \<and> \<not> isin (ACCT_NM r) RP_ACCOUNTS"
  by (auto simp: avs_df_def empty_frame_def Let_def split: if_splits)

text \<open>
  Claim C2. When app1.py produces its three segments from a workbook, no row is a member
  of two of them; indeed no account cell occurs in two segments. (If the sheet \<open>AMS\<close>
  lacks the column \<^verbatim>\<open>ACCT NM\<close> the run ends with an error and produces no
  segment.)
\<close>

theorem segments_pairwise_disjoint:
  assumes "segments wb = Inr (rp, lfs, avs)"
  shows "(set (rows rp) \<inter> set (rows lfs) = {} \<and>
          set (rows rp) \<inter> set (rows avs) = {} \<and>
          set (rows lfs) \<inter> set (rows avs) = {}) \<and>
         (ACCT_NM ` set (rows rp) \<inter> ACCT_NM ` set (rows lfs) = {} \<and>
          ACCT_NM ` set (rows rp) \<inter> ACCT_NM ` set (rows avs) = {} \<and>
          ACCT_NM ` set (rows lfs) \<inter> ACCT_NM ` set (rows avs) = {})"
proof -
  from assms have rp: "rp_df wb = Inr rp" and lfs: "lfs = lfs_df wb" and avs: "avs = avs_df wb"
    by (auto simp: segments_def split: sum.splits)
  have a: "\<And>r. r \<in> set (rows rp) \<Longrightarrow> isin (ACCT_NM r) RP_ACCOUNTS"
    using rp by (rule rp_df_rows)
  have b: "\<And>r. r \<in> set (rows lfs) \<Longrightarrow>
             is_healthcare (ACCT_NM r) \<and> \<not> isin (ACCT_NM r) RP_ACCOUNTS"
    unfolding lfs by (rule lfs_df_rows)
  have c: "\<And>r. r \<in> set (rows avs) \<Longrightarrow>
             is_aviation (ACCT_NM r) \<and> \<not> isin (ACCT_NM r) RP_ACCOUNTS"
    unfolding avs by (rule avs_df_rows)
  have n1: "ACCT_NM ` set (rows rp) \<inter> ACCT_NM ` set (rows lfs) = {}"
    using a b by fastforce
  have n2: "ACCT_NM ` set (rows rp) \<inter> ACCT_NM ` set (rows avs) = {}"
    using a c by fastforce
  have n3: "ACCT_NM ` set (rows lfs) \<inter> ACCT_NM ` set (rows avs) = {}"
    using b c healthcare_aviation_exclusive by fastforce
  have "set (rows rp) \<inter> set (rows lfs) = {}" using n1 by blast
  moreover have "set (rows rp) \<inter> set (rows avs) = {}" using n2 by blast
  moreover have "set (rows lfs) \<inter> set (rows avs) = {}" using n3 by blast
  ultimately show ?thesis using n1 n2 n3 by (simp only: simp_thms)
qed

theorem segments_pairwise_disjoint_witness:
  "segments example_workbook =
     Inr (example_rp, lfs_df example_workbook, avs_df example_workbook) \<and>
   (map ACCT_NM (rows example_rp) = [PStr ''Marken Ltd''] \<and>
    map ACCT_NM (rows (lfs_df example_workbook)) = [PStr ''Leica Biosystems''] \<and>
    map ACCT_NM (rows (avs_df example_workbook)) =
      [PStr ''Lufthansa Cargo'', PStr ''Storm Aviation'']) \<and>
   ((set (rows example_rp) \<inter> set (rows (lfs_df example_workbook)) = {} \<and>
     set (rows example_rp) \<inter> set (rows (avs_df example_workbook)) = {} \<and>
     set (rows (lfs_df example_workbook)) \<inter> set (rows (avs_df example_workbook)) = {}) \<and>
    (ACCT_NM ` set (rows example_rp) \<inter> ACCT_NM ` set (rows (lfs_df example_workbook)) = {} \<and>
     ACCT_NM ` set (rows example_rp) \<inter> ACCT_NM ` set (rows (avs_df example_workbook)) = {} \<and>
     ACCT_NM ` set (rows (lfs_df example_workbook)) \<inter>
       ACCT_NM ` set (rows (avs_df example_workbook)) = {}))"
proof -
  have h: "segments example_workbook =
             Inr (example_rp, lfs_df example_workbook, avs_df example_workbook)"
    by code_simp
  have m: "map ACCT_NM (rows example_rp) = [PStr ''Marken Ltd''] \<and>
           map ACCT_NM (rows (lfs_df example_workbook)) = [PStr ''Leica Biosystems''] \<and>
           map ACCT_NM (rows (avs_df example_workbook)) =
             [PStr ''Lufthansa Cargo'', PStr ''Storm Aviation'']"
    by code_simp
  from m segments_pairwise_disjoint [OF h] have
    "(map ACCT_NM (rows example_rp) = [PStr ''Marken Ltd''] \<and>
      map ACCT_NM (rows (lfs_df example_workbook)) = [PStr ''Leica Biosystems''] \<and>
      map ACCT_NM (rows (avs_df example_workbook)) =
        [PStr ''Lufthansa Cargo'', PStr ''Storm Aviation'']) \<and>
     ((set (rows example_rp) \<inter> set (rows (lfs_df example_workbook)) = {} \<and>
       set (rows example_rp) \<inter> set (rows (avs_df example_workbook)) = {} \<and>
       set (rows (lfs_df example_workbook)) \<inter> set (rows (avs_df example_workbook)) = {}) \<and>
      (ACCT_NM ` set (rows example_rp) \<inter> ACCT_NM ` set (rows (lfs_df example_workbook)) = {} \<and>
       ACCT_NM ` set (rows example_rp) \<inter> ACCT_NM ` set (rows (avs_df example_workbook)) = {} \<and>
       ACCT_NM ` set (rows (lfs_df example_workbook)) \<inter>
         ACCT_NM ` set (rows (avs_df example_workbook)) = {}))"
    by (rule conjI)
  with h show ?thesis by (rule conjI)
qed

section \<open>Properties of the target series\<close>

lemma length_normalized_column:
  "normalized_column name field df = Inr ts \<Longrightarrow> length ts = length (rows df)"
  by (auto simp: normalized_column_def split: if_splits dest: length_excel_to_dt)

lemma length_record_pods: "record_pods df = Inr pods \<Longrightarrow> length pods = length (rows df)"
  unfolding record_pods_def by (rule length_normalized_column)

lemma record_targets_eq:
  "record_targets df =
     (if has_column ''UPD DEL'' df \<and> list_ex notna (map UPD_DEL (rows df))
        then excel_to_dt (map UPD_DEL (rows df))
      else if has_column ''QDT'' df then excel_to_dt (map QDT (rows df))
      else Inr (replicate (length (rows df)) None))"
  by (simp add: record_targets_def get_target_series_def)

lemma length_record_targets:
  "record_targets df = Inr targets \<Longrightarrow> length targets = length (rows df)"
  by (auto simp: record_targets_eq split: if_splits dest: length_excel_to_dt)

lemma add_otp_columns_targets:
  assumes "record_pods df = Inr pods"
  shows "map_sum id (map target_ts) (add_otp_columns df) =
     (if has_column ''UPD DEL'' df then excel_to_dt (map UPD_DEL (rows df))
      else if has_column ''QDT'' df then excel_to_dt (map QDT (rows df))
      else Inr (replicate (length (rows df)) None))"
proof -
  define tgt where "tgt =
     (if has_column ''UPD DEL'' df then excel_to_dt (map UPD_DEL (rows df))
      else if has_column ''QDT'' df then excel_to_dt (map QDT (rows df))
      else Inr (replicate (length (rows df)) None))"
  define ctrl where "ctrl = (if has_column ''QC NAME'' df
             then map (\<lambda>r. regex_search CTRL_REGEX (py_str (QC_NAME r))) (rows df)
             else replicate (length (rows df)) False)"
  from assms have p: "(if has_column ''POD DATE/TIME'' df
            then excel_to_dt (map POD_DATE_TIME (rows df))
            else Inr (replicate (length (rows df)) None)) = Inr pods"
    by (simp only: record_pods_def normalized_column_def)
  from assms have lp: "length pods = length (rows df)" by (rule length_record_pods)
  have lc: "length ctrl = length (rows df)" by (simp add: ctrl_def)
  have a: "add_otp_columns df =
           (case tgt of
              Inl e \<Rightarrow> Inl e
            | Inr target \<Rightarrow>
                Inr (map (\<lambda>(p, t, c). make_otp_row p t c) (zip pods (zip target ctrl))))"
    unfolding add_otp_columns_def Let_def p tgt_def [symmetric] ctrl_def [symmetric] by simp
  show ?thesis unfolding tgt_def [symmetric]
  proof (cases tgt)
    case (Inl e)
    with a show "map_sum id (map target_ts) (add_otp_columns df) = tgt" by simp
  next
    case (Inr target)
    then have lt: "length target = length (rows df)"
      by (auto simp: tgt_def split: if_splits dest: length_excel_to_dt)
    have "map target_ts (map (\<lambda>(p, t, c). make_otp_row p t c) (zip pods (zip target ctrl))) =
          map (\<lambda>(p, t, c). t) (zip pods (zip target ctrl))"
      by (simp add: comp_def case_prod_unfold make_otp_row_def Let_def)
    also have "\<dots> = map fst (map snd (zip pods (zip target ctrl)))"
      by (simp add: comp_def case_prod_unfold)
    also have "\<dots> = target" using lp lt lc by (simp add: map_snd_zip map_fst_zip)
    finally show "map_sum id (map target_ts) (add_otp_columns df) = tgt"
      using a Inr by simp
  qed
qed

lemma spec_targets_all_present:
  assumes "has_column ''UPD DEL'' df" "list_all notna (map UPD_DEL (rows df))"
    and "spec_record_targets df = Inr ts"
  shows "excel_to_dt (map UPD_DEL (rows df)) = Inr ts"
proof -
  from assms(1,3) obtain upd qdt where
    u: "excel_to_dt (map UPD_DEL (rows df)) = Inr upd" and
    q: "normalized_column ''QDT'' QDT df = Inr qdt" and
    ts: "ts = map (\<lambda>(p, u, q). if p then u else q)
                (zip (map (\<lambda>r. has_column ''UPD DEL'' df \<and> notna (UPD_DEL r)) (rows df))
                   (zip upd qdt))"
    by (auto simp: spec_record_targets_def normalized_column_def Let_def split: sum.splits)
  from u have lu: "length upd = length (rows df)" by (auto dest: length_excel_to_dt)
  from q have lq: "length qdt = length (rows df)" by (rule length_normalized_column)
  have "ts = upd"
  proof (rule nth_equalityI)
    show "length ts = length upd" by (simp add: ts lu lq)
  next
    fix i assume "i < length ts"
    then have i: "i < length (rows df)" by (simp add: ts lu lq)
    with assms(2) have "notna (UPD_DEL (rows df ! i))" by (simp add: list_all_length)
    with i assms(1) show "ts ! i = upd ! i" by (simp add: ts lu lq)
  qed
  with u show ?thesis by simp
qed

lemma spec_targets_none_present:
  assumes "\<not> has_column ''UPD DEL'' df \<or> \<not> list_ex notna (map UPD_DEL (rows df))"
    and "spec_record_targets df = Inr ts"
  shows "normalized_column ''QDT'' QDT df = Inr ts"
proof -
  from assms(2) obtain upd qdt where
    u: "normalized_column ''UPD DEL'' UPD_DEL df = Inr upd" and
    q: "normalized_column ''QDT'' QDT df = Inr qdt" and
    ts: "ts = map (\<lambda>(p, u, q). if p then u else q)
                (zip (map (\<lambda>r. has_column ''UPD DEL'' df \<and> notna (UPD_DEL r)) (rows df))
                   (zip upd qdt))"
    by (auto simp: spec_record_targets_def Let_def split: sum.splits)
  from u have lu: "length upd = length (rows df)" by (rule length_normalized_column)
  from q have lq: "length qdt = length (rows df)" by (rule length_normalized_column)
  have "ts = qdt"
  proof (rule nth_equalityI)
    show "length ts = length qdt" by (simp add: ts lu lq)
  next
    fix i assume "i < length ts"
    then have i: "i < length (rows df)" by (simp add: ts lu lq)
    with assms(1) have "\<not> (has_column ''UPD DEL'' df \<and> notna (UPD_DEL (rows df ! i)))"
      by (auto simp: list_ex_iff)
    with i show "ts ! i = qdt ! i" by (auto simp: ts lu lq)
  qed
  with q show ?thesis by simp
qed

text \<open>
  Claim C7. Both scripts choose the target column once for the whole frame, not per
  record. In app1.py the target series is the normalized \<^verbatim>\<open>UPD DEL\<close> column
  when the frame has that column and at least one of its cells is non-null, otherwise the
  normalized \<^verbatim>\<open>QDT\<close> column when the frame has it, otherwise there is no target;
  an error of the normalization is the error of the series. The sheet-aware script, once
  its proof-of-delivery column is normalized, takes \<^verbatim>\<open>UPD DEL\<close> whenever the
  frame has the column. Where the series is computed without error, a record whose
  \<^verbatim>\<open>UPD DEL\<close> cell is empty in a frame whose \<^verbatim>\<open>UPD DEL\<close> column is used
  has no target. The series of app1.py agrees with the per-record reading of the
  specification, where that reading is computed without error, when the frame lacks the
  column or its cells are all null or all non-null.
\<close>

theorem target_column_chosen_per_frame:
  "record_targets df =
     (if has_column ''UPD DEL'' df \<and> list_ex notna (map UPD_DEL (rows df))
        then excel_to_dt (map UPD_DEL (rows df))
      else if has_column ''QDT'' df then excel_to_dt (map QDT (rows df))
      else Inr (replicate (length (rows df)) None)) \<and>
   (record_pods df = Inr pods \<longrightarrow>
      map_sum id (map target_ts) (add_otp_columns df) =
        (if has_column ''UPD DEL'' df then excel_to_dt (map UPD_DEL (rows df))
         else if has_column ''QDT'' df then excel_to_dt (map QDT (rows df))
         else Inr (replicate (length (rows df)) None))) \<and>
   (has_column ''UPD DEL'' df \<and> list_ex notna (map UPD_DEL (rows df)) \<and>
    i < length (rows df) \<and> UPD_DEL (rows df ! i) = nan_cell \<and>
    record_targets df = Inr targets \<longrightarrow> targets ! i = None) \<and>
   (has_column ''UPD DEL'' df \<and> i < length (rows df) \<and> UPD_DEL (rows df ! i) = nan_cell \<and>
    add_otp_columns df = Inr d \<longrightarrow> target_ts (d ! i) = None) \<and>
   ((\<not> has_column ''UPD DEL'' df \<or> \<not> list_ex notna (map UPD_DEL (rows df)) \<or>
     list_all notna (map UPD_DEL (rows df))) \<and> spec_record_targets df = Inr ts \<longrightarrow>
      record_targets df = Inr ts)"
proof (intro conjI impI)
  show "record_targets df =
     (if has_column ''UPD DEL'' df \<and> list_ex notna (map UPD_DEL (rows df))
        then excel_to_dt (map UPD_DEL (rows df))
      else if has_column ''QDT'' df then excel_to_dt (map QDT (rows df))
      else Inr (replicate (length (rows df)) None))"
    by (rule record_targets_eq)
next
  assume "record_pods df = Inr pods"
  then show "map_sum id (map target_ts) (add_otp_columns df) =
        (if has_column ''UPD DEL'' df then excel_to_dt (map UPD_DEL (rows df))
         else if has_column ''QDT'' df then excel_to_dt (map QDT (rows df))
         else Inr (replicate (length (rows df)) None))"
    by (rule add_otp_columns_targets)
next
  assume a: "has_column ''UPD DEL'' df \<and> list_ex notna (map UPD_DEL (rows df)) \<and>
    i < length (rows df) \<and> UPD_DEL (rows df ! i) = nan_cell \<and>
    record_targets df = Inr targets"
  then have "excel_to_dt (map UPD_DEL (rows df)) = Inr targets"
    by (auto simp: record_targets_eq)
  moreover from a have "i < length (map UPD_DEL (rows df))" by simp
  moreover from a have "map UPD_DEL (rows df) ! i = nan_cell" by simp
  ultimately show "targets ! i = None" by (rule excel_to_dt_nan)
next
  assume a: "has_column ''UPD DEL'' df \<and> i < length (rows df) \<and>
    UPD_DEL (rows df ! i) = nan_cell \<and> add_otp_columns df = Inr d"
  then obtain pods where p: "record_pods df = Inr pods"
    by (auto simp: add_otp_columns_def record_pods_def normalized_column_def Let_def
        split: sum.splits if_splits)
  from add_otp_columns_targets [OF p] a
  have e: "excel_to_dt (map UPD_DEL (rows df)) = Inr (map target_ts d)" by simp
  moreover from a have "i < length (map UPD_DEL (rows df))" by simp
  moreover from a have "map UPD_DEL (rows df) ! i = nan_cell" by simp
  ultimately have n: "map target_ts d ! i = None" by (rule excel_to_dt_nan)
  from e have "length (map target_ts d) = length (map UPD_DEL (rows df))"
    by (rule length_excel_to_dt)
  with a have "i < length d" by simp
  with n show "target_ts (d ! i) = None" by simp
next
  assume a: "(\<not> has_column ''UPD DEL'' df \<or> \<not> list_ex notna (map UPD_DEL (rows df)) \<or>
    list_all notna (map UPD_DEL (rows df))) \<and> spec_record_targets df = Inr ts"
  show "record_targets df = Inr ts"
  proof (cases "has_column ''UPD DEL'' df \<and> list_ex notna (map UPD_DEL (rows df))")
    case True
    with a have "list_all notna (map UPD_DEL (rows df))" by blast
    with True a have "excel_to_dt (map UPD_DEL (rows df)) = Inr ts"
      by (intro spec_targets_all_present) simp_all
    with True show ?thesis by (simp add: record_targets_eq)
  next
    case False
    then have "\<not> has_column ''UPD DEL'' df \<or> \<not> list_ex notna (map UPD_DEL (rows df))"
      by blast
    moreover from a have "spec_record_targets df = Inr ts" by simp
    ultimately have "normalized_column ''QDT'' QDT df = Inr ts"
      by (rule spec_targets_none_present)
    with False show ?thesis by (auto simp: record_targets_eq normalized_column_def)
  qed
qed

theorem target_column_chosen_per_frame_witness:
  "record_pods mixed_targets = Inr [Some 19971, Some 19971, Some 19971] \<and>
   has_column ''UPD DEL'' mixed_targets \<and> list_ex notna (map UPD_DEL (rows mixed_targets)) \<and>
   2 < length (rows mixed_targets) \<and> UPD_DEL (rows mixed_targets ! 2) = nan_cell \<and>
   record_targets mixed_targets = Inr [Some 19972, Some 19973, None] \<and>
   map_sum id (map target_ts) (add_otp_columns mixed_targets) =
     Inr [Some 19972, Some 19973, None] \<and>
   [Some 19972, Some 19973, None :: timestamp option] ! 2 = None \<and>
   \<not> has_column ''UPD DEL'' sheet_without_arr \<and>
   spec_record_targets sheet_without_arr = Inr [Some 19972, Some 19970] \<and>
   record_targets sheet_without_arr = Inr [Some 19972, Some 19970]"
proof -
  let ?ts = "[Some 19972, Some 19973, None :: timestamp option]"
  have p: "record_pods mixed_targets = Inr [Some 19971, Some 19971, Some 19971]"
    by code_simp
  have h1: "has_column ''UPD DEL'' mixed_targets \<and>
            list_ex notna (map UPD_DEL (rows mixed_targets)) \<and>
            2 < length (rows mixed_targets) \<and> UPD_DEL (rows mixed_targets ! 2) = nan_cell"
    by code_simp
  have u: "excel_to_dt (map UPD_DEL (rows mixed_targets)) = Inr ?ts" by code_simp
  note t = target_column_chosen_per_frame
    [of mixed_targets "[Some 19971, Some 19971, Some 19971]" 2 ?ts "[]" "[]"]
  from t h1 u have c1: "record_targets mixed_targets = Inr ?ts" by simp
  from t p h1 u have c2: "map_sum id (map target_ts) (add_otp_columns mixed_targets) = Inr ?ts"
    by simp
  from t h1 c1 have c3: "?ts ! 2 = None" by blast
  have h2: "\<not> has_column ''UPD DEL'' sheet_without_arr" by code_simp
  have s: "spec_record_targets sheet_without_arr = Inr [Some 19972, Some 19970]" by code_simp
  from target_column_chosen_per_frame
    [of sheet_without_arr "[]" 0 "[]" "[]" "[Some 19972, Some 19970]"] h2 s
  have c4: "record_targets sheet_without_arr = Inr [Some 19972, Some 19970]" by blast
  from p h1 c1 c2 c3 h2 s c4 show ?thesis by blast
qed

text \<open>
  The third record of the frame below has an empty \<^verbatim>\<open>UPD DEL\<close> cell and a quoted
  delivery time. The specification's reading gives it that time as target; both scripts
  give it no target.
\<close>

theorem per_record_target_counterexample:
  "\<not> notna (UPD_DEL (rows mixed_targets ! 2)) \<and>
   as_datetime (QDT (rows mixed_targets ! 2)) = Some 19972 \<and>
   spec_record_targets mixed_targets = Inr [Some 19972, Some 19973, Some 19972] \<and>
   record_targets mixed_targets = Inr [Some 19972, Some 19973, None] \<and>
   map_sum id (map target_ts) (add_otp_columns mixed_targets) =
     Inr [Some 19972, Some 19973, None]"
  by code_simp

section \<open>Properties of the on-time computation\<close>

subsection \<open>Masks and counts\<close>

lemma record_on_time_ts_le: "record_on_time (p, t) = ts_le p t"
  by (simp add: record_on_time_def ts_le_def split: option.splits)

lemma ts_le_valid: "ts_le p t \<Longrightarrow> t \<noteq> None \<and> p \<noteq> None"
  by (simp add: ts_le_def split: option.splits)

lemma record_on_time_valid: "record_on_time r \<Longrightarrow> record_valid r"
  by (cases r) (auto simp: record_on_time_def record_valid_def split: option.splits)

lemma mask_sum_valid:
  "length ts = length ps \<Longrightarrow>
   mask_sum (valid_mask ts ps) = count_where record_valid (zip ps ts)"
  by (induction ts ps rule: list_induct2)
     (simp_all add: mask_sum_def valid_mask_def count_where_def record_valid_def)

lemma mask_sum_ontime:
  "length ts = length ps \<Longrightarrow>
   mask_sum (ontime_mask ts ps) = count_where record_on_time (zip ps ts)"
  by (induction ts ps rule: list_induct2)
     (auto simp: mask_sum_def ontime_mask_def valid_mask_def count_where_def
        record_on_time_ts_le dest: ts_le_valid)

lemma mask_sum_controllable:
  "length ts = length ps \<Longrightarrow> length ps = length nc \<Longrightarrow>
   mask_sum (mask_and (valid_mask ts ps) (mask_not nc)) =
     count_controllable_valid (zip ps ts) nc"
  by (induction ts ps nc rule: list_induct3)
     (simp_all add: mask_sum_def valid_mask_def mask_and_def mask_not_def
        count_controllable_valid_def count_where_def record_valid_def)

lemma mask_sum_controllable_ontime:
  "length ts = length ps \<Longrightarrow> length ps = length nc \<Longrightarrow>
   mask_sum (mask_and (ontime_mask ts ps) (mask_and (valid_mask ts ps) (mask_not nc))) =
     count_controllable_on_time (zip ps ts) nc"
  by (induction ts ps nc rule: list_induct3)
     (auto simp: mask_sum_def ontime_mask_def valid_mask_def mask_and_def mask_not_def
        count_controllable_on_time_def count_where_def record_on_time_ts_le
        dest: ts_le_valid)

lemma mask_sum_controllable_ontime_v2:
  "length ts = length ps \<Longrightarrow> length ps = length nc \<Longrightarrow>
   mask_sum (mask_and (map2 (\<lambda>t p. ts_le p t) ts ps)
               (mask_and (valid_mask ts ps) (mask_not nc))) =
     count_controllable_on_time (zip ps ts) nc"
  by (induction ts ps nc rule: list_induct3)
     (auto simp: mask_sum_def valid_mask_def mask_and_def mask_not_def
        count_controllable_on_time_def count_where_def record_on_time_ts_le
        dest: ts_le_valid)

lemma list_ex_mask: "list_ex (\<lambda>b. b) m \<longleftrightarrow> 0 < mask_sum m"
  by (induction m) (simp_all add: mask_sum_def)

lemma count_where_0: "count_where P xs = 0 \<longleftrightarrow> (\<forall>x\<in>set xs. \<not> P x)"
  by (simp add: count_where_def filter_empty_conv)

lemma count_where_cong:
  "(\<And>x. x \<in> set xs \<Longrightarrow> P x = Q x) \<Longrightarrow> count_where P xs = count_where Q xs"
  unfolding count_where_def by (simp cong: filter_cong)

lemma no_valid_no_controllable:
  assumes "count_where record_valid recs = 0"
  shows "count_controllable_valid recs nc = 0"
proof -
  from assms have "\<forall>r\<in>set recs. \<not> record_valid r" by (simp add: count_where_0)
  then have "\<forall>x\<in>set (zip recs nc). \<not> (case x of (r, b) \<Rightarrow> record_valid r \<and> \<not> b)"
    by (auto dest: set_zip_leftD)
  then show ?thesis unfolding count_controllable_valid_def by (simp add: count_where_0)
qed

lemma pods_none_not_valid:
  "count_where record_valid (zip (replicate n None) ts) = 0"
  by (auto simp: count_where_0 record_valid_def dest!: set_zip_leftD)

lemma targets_none_not_valid:
  "count_where record_valid (zip ps (replicate n None)) = 0"
  by (auto simp: count_where_0 record_valid_def dest!: set_zip_rightD)

lemma all_controllable_counts:
  assumes "length nc = length recs" "\<forall>b\<in>set nc. \<not> b"
  shows "count_controllable_valid recs nc = count_where record_valid recs"
    and "count_controllable_on_time recs nc = count_where record_on_time recs"
proof -
  from assms(2) have z: "set (zip recs nc) \<subseteq> {(r, b). \<not> b}"
    by (auto dest: set_zip_rightD)
  from assms(1) have m: "map fst (zip recs nc) = recs" by (simp add: map_fst_zip)
  have "count_controllable_valid recs nc =
        count_where (\<lambda>x. record_valid (fst x)) (zip recs nc)"
    unfolding count_controllable_valid_def using z by (intro count_where_cong) auto
  also have "\<dots> = count_where record_valid (map fst (zip recs nc))"
    by (simp add: count_where_def filter_map comp_def)
  finally show "count_controllable_valid recs nc = count_where record_valid recs"
    by (simp add: m)
  have "count_controllable_on_time recs nc =
        count_where (\<lambda>x. record_on_time (fst x)) (zip recs nc)"
    unfolding count_controllable_on_time_def using z by (intro count_where_cong) auto
  also have "\<dots> = count_where record_on_time (map fst (zip recs nc))"
    by (simp add: count_where_def filter_map comp_def)
  finally show "count_controllable_on_time recs nc = count_where record_on_time recs"
    by (simp add: m)
qed

lemma calculate_otp_counts:
  assumes p: "record_pods df = Inr pods" and t: "record_targets df = Inr targets"
  shows "calculate_otp round_2 df =
     Inr (let recs = zip pods targets;
              nc = record_non_controllable non_controllable df;
              v = count_where record_valid recs;
              cv = count_controllable_valid recs nc
          in (if v = 0 then 0 else round_2 (float_pct (count_where record_on_time recs) v),
              if v = 0 then 0
              else if cv = 0 then round_2 0
              else round_2 (float_pct (count_controllable_on_time recs nc) cv)))"
proof -
  define recs where "recs = zip pods targets"
  define nc where "nc = record_non_controllable non_controllable df"
  define v where "v = count_where record_valid recs"
  from p have lp: "length pods = length (rows df)" by (rule length_record_pods)
  from t have lt: "length targets = length (rows df)" by (rule length_record_targets)
  from lp lt have ltp: "length targets = length pods" by simp
  have len_nc: "length pods = length nc"
    by (simp add: nc_def record_non_controllable_def lp)
  have zero: "calculate_otp round_2 df = Inr (0, 0)" if "v = 0"
  proof (cases "df_empty df \<or> get_target_series df = None \<or> \<not> has_column ''POD DATE/TIME'' df")
    case True
    then show ?thesis by (auto simp: calculate_otp_def split: option.splits)
  next
    case False
    then obtain col where col: "get_target_series df = Some col" by auto
    with t have te: "excel_to_dt col = Inr targets" by (simp add: record_targets_def)
    from False p have pe: "excel_to_dt (map POD_DATE_TIME (rows df)) = Inr pods"
      by (simp add: record_pods_def normalized_column_def)
    from that have "mask_sum (valid_mask targets pods) = 0"
      by (simp add: mask_sum_valid ltp v_def recs_def)
    then have "\<not> list_ex (\<lambda>b. b) (valid_mask targets pods)"
      by (simp add: list_ex_mask)
    with False col show ?thesis by (simp add: calculate_otp_def Let_def te pe)
  qed
  have pos: "calculate_otp round_2 df =
       Inr (round_2 (float_pct (count_where record_on_time recs) v),
            if count_controllable_valid recs nc = 0 then round_2 0
            else round_2 (float_pct (count_controllable_on_time recs nc) (count_controllable_valid recs nc)))" if "v \<noteq> 0"
  proof -
    have ne: "\<not> df_empty df"
    proof
      assume "df_empty df"
      then have "rows df = [] \<or> \<not> has_column ''POD DATE/TIME'' df"
        by (auto simp: df_empty_def has_column_def)
      then have "v = 0"
      proof
        assume "rows df = []"
        with lp show "v = 0" by (simp add: v_def recs_def count_where_def)
      next
        assume "\<not> has_column ''POD DATE/TIME'' df"
        with p have "pods = replicate (length (rows df)) None"
          by (simp add: record_pods_def normalized_column_def)
        then show "v = 0" by (simp add: v_def recs_def pods_none_not_valid)
      qed
      with that show False by simp
    qed
    have pod: "has_column ''POD DATE/TIME'' df"
    proof (rule ccontr)
      assume "\<not> has_column ''POD DATE/TIME'' df"
      with p have "pods = replicate (length (rows df)) None"
        by (simp add: record_pods_def normalized_column_def)
      then have "v = 0" by (simp add: v_def recs_def pods_none_not_valid)
      with that show False by simp
    qed
    have "get_target_series df \<noteq> None"
    proof
      assume "get_target_series df = None"
      with t have "targets = replicate (length (rows df)) None"
        by (simp add: record_targets_def)
      then have "v = 0" by (simp add: v_def recs_def targets_none_not_valid)
      with that show False by simp
    qed
    then obtain col where col: "get_target_series df = Some col" by auto
    with t have te: "excel_to_dt col = Inr targets" by (simp add: record_targets_def)
    from pod p have pe: "excel_to_dt (map POD_DATE_TIME (rows df)) = Inr pods"
      by (simp add: record_pods_def normalized_column_def)
    have vm: "mask_sum (valid_mask targets pods) = v"
      by (simp add: mask_sum_valid ltp v_def recs_def)
    have om: "mask_sum (ontime_mask targets pods) = count_where record_on_time recs"
      by (simp add: mask_sum_ontime ltp recs_def)
    have ex: "list_ex (\<lambda>b. b) (valid_mask targets pods)"
      using that vm by (simp add: list_ex_mask)
    show ?thesis
    proof (cases "has_column ''QC'' df")
      case True
      then have nc_eq: "map (\<lambda>r. non_controllable (QC r)) (rows df) = nc"
        by (simp add: nc_def record_non_controllable_def)
      have cm: "mask_sum (mask_and (valid_mask targets pods) (mask_not nc)) =
                count_controllable_valid recs nc"
        using len_nc by (simp add: mask_sum_controllable ltp recs_def)
      have com: "mask_sum (mask_and (ontime_mask targets pods)
                   (mask_and (valid_mask targets pods) (mask_not nc))) =
                 count_controllable_on_time recs nc"
        using len_nc by (simp add: mask_sum_controllable_ontime ltp recs_def)
      from ne pod col True ex that show ?thesis
        by (simp add: calculate_otp_def Let_def te pe vm om nc_eq cm com)
    next
      case False
      then have nc_rep: "nc = replicate (length (rows df)) False"
        by (simp add: nc_def record_non_controllable_def)
      have "length nc = length recs" by (simp add: nc_rep recs_def lp lt)
      moreover have "\<forall>b\<in>set nc. \<not> b" by (simp add: nc_rep)
      ultimately have cv: "count_controllable_valid recs nc = v"
        and cot: "count_controllable_on_time recs nc = count_where record_on_time recs"
        unfolding v_def by (rule all_controllable_counts)+
      from ne pod col False ex that show ?thesis
        by (simp add: calculate_otp_def Let_def te pe vm om cv cot)
    qed
  qed
  show ?thesis
  proof (cases "v = 0")
    case True
    with zero show ?thesis
      by (simp add: Let_def recs_def [symmetric] v_def [symmetric])
  next
    case False
    with pos show ?thesis
      by (simp add: Let_def recs_def [symmetric] nc_def [symmetric] v_def [symmetric])
  qed
qed

lemma calculate_otp_v2_counts:
  assumes p: "record_pods df = Inr pods" and t: "record_targets df = Inr targets"
  shows "calculate_otp_v2 df =
     Inr (let recs = zip pods targets;
              nc = record_non_controllable non_controllable_v2 df;
              v = count_where record_valid recs;
              cv = count_controllable_valid recs nc
          in (if v = 0 then 0 else float_pct (count_where record_on_time recs) v,
              if v = 0 then 0
              else if cv = 0 then float_pct (count_where record_on_time recs) v
              else float_pct (count_controllable_on_time recs nc) cv))"
proof -
  define recs where "recs = zip pods targets"
  define nc where "nc = record_non_controllable non_controllable_v2 df"
  define v where "v = count_where record_valid recs"
  from p have lp: "length pods = length (rows df)" by (rule length_record_pods)
  from t have lt: "length targets = length (rows df)" by (rule length_record_targets)
  from lp lt have ltp: "length targets = length pods" by simp
  have len_nc: "length pods = length nc"
    by (simp add: nc_def record_non_controllable_def lp)
  have zero: "calculate_otp_v2 df = Inr (0, 0)" if "v = 0"
  proof (cases "df_empty df \<or> get_target_series df = None \<or> \<not> has_column ''POD DATE/TIME'' df")
    case True
    then show ?thesis by (auto simp: calculate_otp_v2_def split: option.splits)
  next
    case False
    then obtain col where col: "get_target_series df = Some col" by auto
    with t have te: "excel_to_dt col = Inr targets" by (simp add: record_targets_def)
    from False p have pe: "excel_to_dt (map POD_DATE_TIME (rows df)) = Inr pods"
      by (simp add: record_pods_def normalized_column_def)
    from that have "mask_sum (valid_mask targets pods) = 0"
      by (simp add: mask_sum_valid ltp v_def recs_def)
    then have "\<not> list_ex (\<lambda>b. b) (valid_mask targets pods)"
      by (simp add: list_ex_mask)
    with False col show ?thesis by (simp add: calculate_otp_v2_def Let_def te pe)
  qed
  have pos: "calculate_otp_v2 df =
       Inr (float_pct (count_where record_on_time recs) v,
            if count_controllable_valid recs nc = 0 then float_pct (count_where record_on_time recs) v
            else float_pct (count_controllable_on_time recs nc) (count_controllable_valid recs nc))" if "v \<noteq> 0"
  proof -
    have ne: "\<not> df_empty df"
    proof
      assume "df_empty df"
      then have "rows df = [] \<or> \<not> has_column ''POD DATE/TIME'' df"
        by (auto simp: df_empty_def has_column_def)
      then have "v = 0"
      proof
        assume "rows df = []"
        with lp show "v = 0" by (simp add: v_def recs_def count_where_def)
      next
        assume "\<not> has_column ''POD DATE/TIME'' df"
        with p have "pods = replicate (length (rows df)) None"
          by (simp add: record_pods_def normalized_column_def)
        then show "v = 0" by (simp add: v_def recs_def pods_none_not_valid)
      qed
      with that show False by simp
    qed
    have pod: "has_column ''POD DATE/TIME'' df"
    proof (rule ccontr)
      assume "\<not> has_column ''POD DATE/TIME'' df"
      with p have "pods = replicate (length (rows df)) None"
        by (simp add: record_pods_def normalized_column_def)
      then have "v = 0" by (simp add: v_def recs_def pods_none_not_valid)
      with that show False by simp
    qed
    have "get_target_series df \<noteq> None"
    proof
      assume "get_target_series df = None"
      with t have "targets = replicate (length (rows df)) None"
        by (simp add: record_targets_def)
      then have "v = 0" by (simp add: v_def recs_def targets_none_not_valid)
      with that show False by simp
    qed
    then obtain col where col: "get_target_series df = Some col" by auto
    with t have te: "excel_to_dt col = Inr targets" by (simp add: record_targets_def)
    from pod p have pe: "excel_to_dt (map POD_DATE_TIME (rows df)) = Inr pods"
      by (simp add: record_pods_def normalized_column_def)
    have vm: "mask_sum (valid_mask targets pods) = v"
      by (simp add: mask_sum_valid ltp v_def recs_def)
    have om: "mask_sum (ontime_mask targets pods) = count_where record_on_time recs"
      by (simp add: mask_sum_ontime ltp recs_def)
    have ex: "list_ex (\<lambda>b. b) (valid_mask targets pods)"
      using that vm by (simp add: list_ex_mask)
    show ?thesis
    proof (cases "has_column ''QC'' df")
      case True
      then have nc_eq: "map (\<lambda>r. non_controllable_v2 (QC r)) (rows df) = nc"
        by (simp add: nc_def record_non_controllable_def)
      have cm: "mask_sum (mask_and (valid_mask targets pods) (mask_not nc)) =
                count_controllable_valid recs nc"
        using len_nc by (simp add: mask_sum_controllable ltp recs_def)
      have com: "mask_sum (mask_and (map2 (\<lambda>t p. ts_le p t) targets pods)
                   (mask_and (valid_mask targets pods) (mask_not nc))) =
                 count_controllable_on_time recs nc"
        using len_nc by (simp add: mask_sum_controllable_ontime_v2 ltp recs_def)
      from ne pod col True ex that show ?thesis
        by (simp add: calculate_otp_v2_def Let_def te pe vm om nc_eq cm com)
    next
      case False
      then have nc_rep: "nc = replicate (length (rows df)) False"
        by (simp add: nc_def record_non_controllable_def)
      have "length nc = length recs" by (simp add: nc_rep recs_def lp lt)
      moreover have "\<forall>b\<in>set nc. \<not> b" by (simp add: nc_rep)
      ultimately have cv: "count_controllable_valid recs nc = v"
        and cot: "count_controllable_on_time recs nc = count_where record_on_time recs"
        unfolding v_def by (rule all_controllable_counts)+
      from ne pod col False ex that show ?thesis
        by (simp add: calculate_otp_v2_def Let_def te pe vm om cv cot)
    qed
  qed
  show ?thesis
  proof (cases "v = 0")
    case True
    with zero show ?thesis
      by (simp add: Let_def recs_def [symmetric] v_def [symmetric])
  next
    case False
    with pos show ?thesis
      by (simp add: Let_def recs_def [symmetric] nc_def [symmetric] v_def [symmetric])
  qed
qed

lemma length_record_non_controllable:
  "length (record_non_controllable test df) = length (rows df)"
  by (simp add: record_non_controllable_def)

subsection \<open>The September figures of the sheet-aware script\<close>

lemma make_otp_row_net: "On_Time_Net (make_otp_row p t False)"
  by (simp add: make_otp_row_def Let_def)

lemma add_otp_columns_net:
  assumes "\<not> has_column ''QC NAME'' df \<or>
           (\<forall>r\<in>set (rows df). \<not> regex_search CTRL_REGEX (py_str (QC_NAME r)))"
    and "add_otp_columns df = Inr d"
  shows "\<forall>r\<in>set d. On_Time_Net r"
proof
  fix r assume "r \<in> set d"
  with assms(2) obtain p t c pod target where
    r: "r = make_otp_row p t c" and
    z: "(p, t, c) \<in> set (zip pod (zip target
          (if has_column ''QC NAME'' df
           then map (\<lambda>r. regex_search CTRL_REGEX (py_str (QC_NAME r))) (rows df)
           else replicate (length (rows df)) False)))"
    by (auto simp: add_otp_columns_def Let_def split: sum.splits)
  from z have "c \<in> set (if has_column ''QC NAME'' df
           then map (\<lambda>r. regex_search CTRL_REGEX (py_str (QC_NAME r))) (rows df)
           else replicate (length (rows df)) False)"
    by (auto dest!: set_zip_rightD)
  with assms(1) have "\<not> c" by (auto split: if_splits)
  with r show "On_Time_Net r" by (simp add: make_otp_row_net)
qed

lemma mask_sum_le: "mask_sum m \<le> length m"
  by (simp add: mask_sum_def)

lemma mean_pct_le: "flags \<noteq> [] \<Longrightarrow> mean_pct flags \<le> 100"
  unfolding mean_pct_def by (rule float_pct_le) (simp_all add: mask_sum_le)

lemma mean_pct_all:
  assumes "flags \<noteq> []" "\<forall>b\<in>set flags. b"
  shows "mean_pct flags = 100"
proof -
  from assms(2) have "filter (\<lambda>b. b) flags = flags" by (simp add: filter_id_conv)
  then have "mask_sum flags = length flags" by (simp add: mask_sum_def)
  with assms(1) show ?thesis by (simp add: mean_pct_def float_pct_same)
qed

lemma kpis_net_100:
  assumes "\<forall>r\<in>set d. On_Time_Net r"
  shows "kpi_net (kpis_for_september d year) =
           (if kpi_gross (kpis_for_september d year) = None then None else Some 100)"
proof -
  define d3 where "d3 =
    (let d1 = filter (\<lambda>r. pod_ts r \<noteq> None) d;
         d2 = filter (\<lambda>r. case pod_ts r of None \<Rightarrow> False | Some t \<Rightarrow> dt_month t = 9) d1
     in case year of
          None \<Rightarrow> d2
        | Some y \<Rightarrow> filter (\<lambda>r. case pod_ts r of None \<Rightarrow> False | Some t \<Rightarrow> dt_year t = y) d2)"
  define base where "base = filter (\<lambda>r. target_ts r \<noteq> None) d3"
  have "set d3 \<subseteq> set d" by (auto simp: d3_def Let_def split: option.splits)
  then have "set base \<subseteq> set d" by (auto simp: base_def)
  with assms have all: "\<forall>b\<in>set (map On_Time_Net base). b" by auto
  have k: "kpis_for_september d year =
     (if d = [] then \<lparr>kpi_volume = 0, kpi_gross = None, kpi_net = None\<rparr>
      else if base = [] then \<lparr>kpi_volume = length d3, kpi_gross = None, kpi_net = None\<rparr>
      else
        let gross = mean_pct (map On_Time_Gross base);
            net = mean_pct (map On_Time_Net base);
            net' = (if net < gross then gross else net)
        in \<lparr>kpi_volume = length d3, kpi_gross = Some gross, kpi_net = Some net'\<rparr>)"
    by (simp add: kpis_for_september_def d3_def base_def Let_def)
  show ?thesis
  proof (cases "d = [] \<or> base = []")
    case True
    then show ?thesis by (auto simp: k)
  next
    case False
    then have "map On_Time_Net base \<noteq> []" by simp
    then have n: "mean_pct (map On_Time_Net base) = 100" using all by (rule mean_pct_all)
    from False have "map On_Time_Gross base \<noteq> []" by simp
    then have "mean_pct (map On_Time_Gross base) \<le> 100" by (rule mean_pct_le)
    with False n show ?thesis by (simp add: k Let_def)
  qed
qed

subsection \<open>Gross OTP\<close>

text \<open>
  Claim C4. A record is valid when both its proof-of-delivery time and its target time are
  non-null, and on time when it is valid and the former is not later than the latter.
  Whenever the two date columns are normalized without error, \<open>calculate_otp\<close> of app1.py
  returns as Gross OTP 0 when no record is valid, and otherwise the float quotient of the
  number of on-time records by the number of valid records, times 100, passed through
  \<^verbatim>\<open>round(x, 2)\<close>. A set with at least one valid record yields the rounding of
  100 when every valid record is on time and the rounding of 0 when every valid record is
  late, which are 100 and 0 for a rounding that keeps these two numbers.
\<close>

theorem gross_otp_rounded_share:
  "record_pods df = Inr pods \<and> record_targets df = Inr targets \<longrightarrow>
   map_sum id fst (calculate_otp round_2 df) =
     Inr (if count_where record_valid (zip pods targets) = 0 then 0
          else round_2 (float_pct (count_where record_on_time (zip pods targets))
                          (count_where record_valid (zip pods targets)))) \<and>
   (0 < count_where record_valid (zip pods targets) \<and>
    (\<forall>r\<in>set (zip pods targets). record_valid r \<longrightarrow> record_on_time r) \<and>
    round_2 100 = 100 \<longrightarrow>
      map_sum id fst (calculate_otp round_2 df) = Inr 100) \<and>
   (0 < count_where record_valid (zip pods targets) \<and>
    (\<forall>r\<in>set (zip pods targets). record_valid r \<longrightarrow> \<not> record_on_time r) \<and>
    round_2 0 = 0 \<longrightarrow>
      map_sum id fst (calculate_otp round_2 df) = Inr 0)"
proof (intro impI)
  assume a: "record_pods df = Inr pods \<and> record_targets df = Inr targets"
  define recs where "recs = zip pods targets"
  define v where "v = count_where record_valid recs"
  from a have g: "map_sum id fst (calculate_otp round_2 df) =
       Inr (if v = 0 then 0 else round_2 (float_pct (count_where record_on_time recs) v))"
    by (simp add: calculate_otp_counts [of df pods targets] Let_def recs_def v_def)
  have on: "map_sum id fst (calculate_otp round_2 df) = Inr 100"
    if "0 < v" "\<forall>r\<in>set recs. record_valid r \<longrightarrow> record_on_time r" "round_2 100 = 100"
  proof -
    from that(2) have "count_where record_on_time recs = v"
      unfolding v_def by (intro count_where_cong) (auto dest: record_on_time_valid)
    with that(1,3) show ?thesis by (simp add: g float_pct_same)
  qed
  have late: "map_sum id fst (calculate_otp round_2 df) = Inr 0"
    if "0 < v" "\<forall>r\<in>set recs. record_valid r \<longrightarrow> \<not> record_on_time r" "round_2 0 = 0"
  proof -
    from that(2) have "\<forall>r\<in>set recs. \<not> record_on_time r"
      by (auto dest: record_on_time_valid)
    then have "count_where record_on_time recs = 0" by (simp add: count_where_0)
    with that(1,3) show ?thesis by (simp add: g float_pct_0)
  qed
  from g on late
  show "map_sum id fst (calculate_otp round_2 df) =
     Inr (if count_where record_valid (zip pods targets) = 0 then 0
          else round_2 (float_pct (count_where record_on_time (zip pods targets))
                          (count_where record_valid (zip pods targets)))) \<and>
   (0 < count_where record_valid (zip pods targets) \<and>
    (\<forall>r\<in>set (zip pods targets). record_valid r \<longrightarrow> record_on_time r) \<and>
    round_2 100 = 100 \<longrightarrow>
      map_sum id fst (calculate_otp round_2 df) = Inr 100) \<and>
   (0 < count_where record_valid (zip pods targets) \<and>
    (\<forall>r\<in>set (zip pods targets). record_valid r \<longrightarrow> \<not> record_on_time r) \<and>
    round_2 0 = 0 \<longrightarrow>
      map_sum id fst (calculate_otp round_2 df) = Inr 0)"
    unfolding recs_def v_def by blast
qed

theorem gross_otp_rounded_share_witness:
  "record_pods empty_frame = Inr [] \<and> record_targets empty_frame = Inr [] \<and>
   map_sum id fst (calculate_otp np_round2 empty_frame) = Inr 0 \<and>
   record_pods customs_only = Inr [Some 19972] \<and>
   record_targets customs_only = Inr [Some 19973] \<and>
   np_round2 100 = 100 \<and>
   map_sum id fst (calculate_otp np_round2 customs_only) = Inr 100 \<and>
   record_pods aviation_sheet = Inr [Some 19975] \<and>
   record_targets aviation_sheet = Inr [Some 19974] \<and>
   py_round2 0 = 0 \<and>
   map_sum id fst (calculate_otp py_round2 aviation_sheet) = Inr 0 \<and>
   record_pods share_23_of_160 = Inr (replicate 23 (Some 19972) @ replicate 137 (Some 19975)) \<and>
   record_targets share_23_of_160 =
     Inr (replicate 23 (Some 19973) @ replicate 137 (Some 19974)) \<and>
   map_sum id fst (calculate_otp np_round2 share_23_of_160) = Inr (fl (1437 / 100)) \<and>
   map_sum id fst (calculate_otp py_round2 share_23_of_160) = Inr (fl (1437 / 100)) \<and>
   fl (1437 / 100) = 8089590830664253 / 562949953421312"
proof -
  have e: "record_pods empty_frame = Inr []" "record_targets empty_frame = Inr []"
    by code_simp+
  have e0: "count_where record_valid (zip [] [] :: (timestamp option \<times> timestamp option) list) = 0"
    by (simp add: count_where_def)
  from gross_otp_rounded_share [of empty_frame "[]" "[]" np_round2] e e0
  have c0: "map_sum id fst (calculate_otp np_round2 empty_frame) = Inr 0"
    by (simp only: simp_thms if_True)
  have p1: "record_pods customs_only = Inr [Some 19972]"
    and t1: "record_targets customs_only = Inr [Some 19973]"
    by code_simp+
  have v1: "0 < count_where record_valid (zip [Some (19972 :: rat)] [Some (19973 :: rat)])"
    by code_simp
  have o1: "\<forall>r\<in>set (zip [Some (19972 :: rat)] [Some (19973 :: rat)]).
              record_valid r \<longrightarrow> record_on_time r"
    by code_simp
  have r1: "np_round2 100 = 100" by code_simp
  from gross_otp_rounded_share [of customs_only "[Some 19972]" "[Some 19973]" np_round2]
    p1 t1 v1 o1 r1
  have c1: "map_sum id fst (calculate_otp np_round2 customs_only) = Inr 100" by blast
  have p2: "record_pods aviation_sheet = Inr [Some 19975]"
    and t2: "record_targets aviation_sheet = Inr [Some 19974]"
    by code_simp+
  have v2: "0 < count_where record_valid (zip [Some (19975 :: rat)] [Some (19974 :: rat)])"
    by code_simp
  have o2: "\<forall>r\<in>set (zip [Some (19975 :: rat)] [Some (19974 :: rat)]).
              record_valid r \<longrightarrow> \<not> record_on_time r"
    by code_simp
  have r2: "py_round2 0 = 0" by code_simp
  from gross_otp_rounded_share [of aviation_sheet "[Some 19975]" "[Some 19974]" py_round2]
    p2 t2 v2 o2 r2
  have c2: "map_sum id fst (calculate_otp py_round2 aviation_sheet) = Inr 0" by blast
  let ?pods = "replicate 23 (Some 19972) @ replicate 137 (Some (19975 :: rat))"
  let ?targets = "replicate 23 (Some 19973) @ replicate 137 (Some (19974 :: rat))"
  have p3: "record_pods share_23_of_160 = Inr ?pods"
    and t3: "record_targets share_23_of_160 = Inr ?targets"
    by code_simp+
  have v3: "count_where record_valid (zip ?pods ?targets) = 160"
    and o3: "count_where record_on_time (zip ?pods ?targets) = 23"
    by code_simp+
  from gross_otp_rounded_share [of share_23_of_160 ?pods ?targets np_round2] p3 t3
  have "map_sum id fst (calculate_otp np_round2 share_23_of_160) =
        Inr (np_round2 (float_pct 23 160))"
    by (simp only: v3 o3 simp_thms) simp
  then have c3: "map_sum id fst (calculate_otp np_round2 share_23_of_160) = Inr (fl (1437 / 100))"
    by (simp only: round_23_of_160)
  from gross_otp_rounded_share [of share_23_of_160 ?pods ?targets py_round2] p3 t3
  have "map_sum id fst (calculate_otp py_round2 share_23_of_160) =
        Inr (py_round2 (float_pct 23 160))"
    by (simp only: v3 o3 simp_thms) simp
  then have c4: "map_sum id fst (calculate_otp py_round2 share_23_of_160) = Inr (fl (1437 / 100))"
    by (simp only: round_23_of_160)
  have f: "fl (1437 / 100) = 8089590830664253 / 562949953421312" by code_simp
  from e c0 p1 t1 r1 c1 p2 t2 r2 c2 p3 t3 c3 c4 f show ?thesis by blast
qed

text \<open>
  With one of three valid records on time the function returns the float 33.33 under either
  rounding, which is neither the float quotient times 100 (the float 33.33333333333333) nor
  the exact 100/3. On a frame
  whose \<^verbatim>\<open>UPD DEL\<close> column of dates is more than half empty it returns nothing:
  the normalization of the column ends with an error.
\<close>

theorem unrounded_gross_otp_counterexample:
  "record_pods late_shipments = Inr [Some (19971 + 5 / 12), Some 19972, Some 19975] \<and>
   record_targets late_shipments = Inr [Some (19971 + 3 / 8), Some 19973, Some 19974] \<and>
   count_where record_valid
     (zip [Some (19971 + 5 / 12), Some 19972, Some 19975]
          [Some (19971 + 3 / 8), Some 19973, Some 19974]) = 3 \<and>
   count_where record_on_time
     (zip [Some (19971 + 5 / 12), Some 19972, Some 19975]
          [Some (19971 + 3 / 8), Some 19973, Some 19974]) = 1 \<and>
   map_sum id fst (calculate_otp np_round2 late_shipments) = Inr (fl (3333 / 100)) \<and>
   map_sum id fst (calculate_otp py_round2 late_shipments) = Inr (fl (3333 / 100)) \<and>
   fl (3333 / 100) = 2345390243441541 / 70368744177664 \<and>
   float_pct 1 3 = 2345624805922133 / 70368744177664 \<and>
   percentage 1 3 = 100 / 3 \<and>
   calculate_otp np_round2 sparse_updates = Inl OutOfBoundsTimedelta"
  by code_simp

subsection \<open>Net OTP\<close>

text \<open>
  Claim C5. For QC text in ASCII and date columns that are normalized without error, Net
  OTP is in both scripts the float quotient of the number of on-time controllable valid
  records by the number of controllable valid records, times 100; the division is guarded
  by a test that the divisor is positive. When there is no controllable valid record the
  second script returns its Gross OTP, and app1.py returns 0 when no record is valid and
  the rounding of 0 otherwise. app1.py passes the share through \<^verbatim>\<open>round(x, 2)\<close>.
\<close>

theorem net_otp_share_and_fallback:
  "record_pods df = Inr pods \<and> record_targets df = Inr targets \<and>
   (\<forall>r\<in>set (rows df). ascii_cell (QC r)) \<longrightarrow>
   (\<exists>gross. calculate_otp_v2 df =
      Inr (gross,
           if count_controllable_valid (zip pods targets)
                (record_non_controllable non_controllable_v2 df) = 0
           then gross
           else float_pct
                  (count_controllable_on_time (zip pods targets)
                     (record_non_controllable non_controllable_v2 df))
                  (count_controllable_valid (zip pods targets)
                     (record_non_controllable non_controllable_v2 df)))) \<and>
   map_sum id snd (calculate_otp round_2 df) =
     Inr (if count_where record_valid (zip pods targets) = 0 then 0
          else if count_controllable_valid (zip pods targets)
                    (record_non_controllable non_controllable df) = 0
          then round_2 0
          else round_2 (float_pct
                 (count_controllable_on_time (zip pods targets)
                    (record_non_controllable non_controllable df))
                 (count_controllable_valid (zip pods targets)
                    (record_non_controllable non_controllable df))))"
proof (intro impI conjI)
  assume a: "record_pods df = Inr pods \<and> record_targets df = Inr targets \<and>
   (\<forall>r\<in>set (rows df). ascii_cell (QC r))"
  then have p: "record_pods df = Inr pods" and t: "record_targets df = Inr targets"
    by simp_all
  define recs where "recs = zip pods targets"
  define nc2 where "nc2 = record_non_controllable non_controllable_v2 df"
  have z: "count_controllable_valid recs nc2 = 0" if "count_where record_valid recs = 0"
    using that by (rule no_valid_no_controllable)
  have "calculate_otp_v2 df =
      Inr (if count_where record_valid recs = 0 then 0
           else float_pct (count_where record_on_time recs) (count_where record_valid recs),
           if count_controllable_valid recs nc2 = 0
           then (if count_where record_valid recs = 0 then 0
                 else float_pct (count_where record_on_time recs)
                        (count_where record_valid recs))
           else float_pct (count_controllable_on_time recs nc2)
                  (count_controllable_valid recs nc2))"
    using z by (simp add: calculate_otp_v2_counts [OF p t] Let_def recs_def nc2_def)
  then show "\<exists>gross. calculate_otp_v2 df =
      Inr (gross,
           if count_controllable_valid (zip pods targets)
                (record_non_controllable non_controllable_v2 df) = 0
           then gross
           else float_pct
                  (count_controllable_on_time (zip pods targets)
                     (record_non_controllable non_controllable_v2 df))
                  (count_controllable_valid (zip pods targets)
                     (record_non_controllable non_controllable_v2 df)))"
    unfolding recs_def nc2_def by (rule exI)
  show "map_sum id snd (calculate_otp round_2 df) =
     Inr (if count_where record_valid (zip pods targets) = 0 then 0
          else if count_controllable_valid (zip pods targets)
                    (record_non_controllable non_controllable df) = 0
          then round_2 0
          else round_2 (float_pct
                 (count_controllable_on_time (zip pods targets)
                    (record_non_controllable non_controllable df))
                 (count_controllable_valid (zip pods targets)
                    (record_non_controllable non_controllable df))))"
    by (simp add: calculate_otp_counts [OF p t] Let_def)
qed

theorem net_otp_share_and_fallback_witness:
  "record_pods customs_only = Inr [Some 19972] \<and>
   record_targets customs_only = Inr [Some 19973] \<and>
   list_all (\<lambda>r. ascii_cell (QC r)) (rows customs_only) \<and>
   count_controllable_valid (zip [Some 19972] [Some 19973])
     (record_non_controllable non_controllable_v2 customs_only) = 0 \<and>
   (\<exists>gross. calculate_otp_v2 customs_only = Inr (gross, gross)) \<and>
   count_where record_valid (zip [Some (19972 :: rat)] [Some (19973 :: rat)]) = 1 \<and>
   count_controllable_valid (zip [Some 19972] [Some 19973])
     (record_non_controllable non_controllable customs_only) = 0 \<and>
   map_sum id snd (calculate_otp np_round2 customs_only) = Inr (np_round2 0) \<and>
   np_round2 0 = 0 \<and>
   record_pods ams_sheet =
     Inr [Some (19971 + 5 / 12), Some 19972, Some 19971, Some 19971, Some 19971] \<and>
   record_targets ams_sheet =
     Inr [Some (19971 + 3 / 8), Some 19973, Some 19972, Some 19972, Some 19972] \<and>
   list_all (\<lambda>r. ascii_cell (QC r)) (rows ams_sheet) \<and>
   (\<exists>gross. calculate_otp_v2 ams_sheet = Inr (gross, 75)) \<and>
   map_sum id snd (calculate_otp np_round2 ams_sheet) = Inr 75 \<and>
   map_sum id snd (calculate_otp py_round2 ams_sheet) = Inr 75"
proof -
  have p: "record_pods customs_only = Inr [Some 19972]"
    and t: "record_targets customs_only = Inr [Some 19973]"
    by code_simp+
  have asc: "list_all (\<lambda>r. ascii_cell (QC r)) (rows customs_only)" by code_simp
  then have asc': "\<forall>r\<in>set (rows customs_only). ascii_cell (QC r)"
    by (simp only: list_all_iff)
  have a: "count_controllable_valid (zip [Some 19972] [Some 19973])
             (record_non_controllable non_controllable_v2 customs_only) = 0"
    by code_simp
  have b: "count_controllable_valid (zip [Some 19972] [Some 19973])
             (record_non_controllable non_controllable customs_only) = 0"
    by code_simp
  have v: "count_where record_valid (zip [Some (19972 :: rat)] [Some (19973 :: rat)]) = 1"
    by code_simp
  have r: "np_round2 0 = 0" by code_simp
  note th = net_otp_share_and_fallback [of customs_only "[Some 19972]" "[Some 19973]" np_round2]
  from th p t asc' a
  have c1: "\<exists>gross. calculate_otp_v2 customs_only = Inr (gross, gross)" by simp
  from th p t asc' b v
  have c2: "map_sum id snd (calculate_otp np_round2 customs_only) = Inr (np_round2 0)"
    by simp
  let ?pods = "[Some (19971 + 5 / 12), Some 19972, Some 19971, Some 19971,
                Some 19971 :: timestamp option]"
  let ?targets = "[Some (19971 + 3 / 8), Some 19973, Some 19972, Some 19972,
                   Some 19972 :: timestamp option]"
  have p': "record_pods ams_sheet = Inr ?pods"
    and t': "record_targets ams_sheet = Inr ?targets"
    by code_simp+
  have asc2: "list_all (\<lambda>r. ascii_cell (QC r)) (rows ams_sheet)" by code_simp
  then have asc2': "\<forall>r\<in>set (rows ams_sheet). ascii_cell (QC r)"
    by (simp only: list_all_iff)
  have n: "count_where record_valid (zip ?pods ?targets) = 5"
          "count_controllable_valid (zip ?pods ?targets)
             (record_non_controllable non_controllable ams_sheet) = 4"
          "count_controllable_on_time (zip ?pods ?targets)
             (record_non_controllable non_controllable ams_sheet) = 3"
          "count_controllable_valid (zip ?pods ?targets)
             (record_non_controllable non_controllable_v2 ams_sheet) = 4"
          "count_controllable_on_time (zip ?pods ?targets)
             (record_non_controllable non_controllable_v2 ams_sheet) = 3"
    by code_simp+
  have f: "float_pct 3 4 = 75" "np_round2 75 = 75" "py_round2 75 = 75" by code_simp+
  from net_otp_share_and_fallback [of ams_sheet ?pods ?targets np_round2] p' t' asc2'
  have c3: "\<exists>gross. calculate_otp_v2 ams_sheet = Inr (gross, 75)"
    and c4: "map_sum id snd (calculate_otp np_round2 ams_sheet) = Inr 75"
    by (simp_all only: n f simp_thms) simp_all
  from net_otp_share_and_fallback [of ams_sheet ?pods ?targets py_round2] p' t' asc2'
  have c5: "map_sum id snd (calculate_otp py_round2 ams_sheet) = Inr 75"
    by (simp only: n f simp_thms) simp
  from p t asc a c1 v b c2 r p' t' asc2 c3 c4 c5 show ?thesis by blast
qed

text \<open>
  A single record, on time and held by customs: app1.py returns Gross 100 and Net 0, where
  the second script returns 100 for both.
\<close>

theorem net_fallback_to_gross_counterexample:
  "record_pods customs_only = Inr [Some 19972] \<and>
   record_targets customs_only = Inr [Some 19973] \<and>
   count_controllable_valid (zip [Some 19972] [Some 19973])
     (record_non_controllable non_controllable customs_only) = 0 \<and>
   calculate_otp np_round2 customs_only = Inr (100, 0) \<and>
   calculate_otp py_round2 customs_only = Inr (100, 0) \<and>
   calculate_otp_v2 customs_only = Inr (100, 100)"
  by code_simp

text \<open>
  Claim C6. In app1.py, for QC text in ASCII and date columns that are normalized without
  error, Net OTP equals Gross OTP when no record is non-controllable (in particular when
  the frame has no column \<^verbatim>\<open>QC\<close>). In the sheet-aware script a late record whose
  \<^verbatim>\<open>QC NAME\<close> text matches no pattern counts as on time for Net OTP: when the
  on-time columns are computed without error and no text matches, or the column is absent,
  Net OTP is 100 whenever the two figures are numbers at all.
\<close>

theorem net_equals_gross_without_non_controllable:
  "(record_pods df = Inr pods \<and> record_targets df = Inr targets \<and>
    (\<forall>r\<in>set (rows df). ascii_cell (QC r)) \<and>
    (\<forall>b\<in>set (record_non_controllable non_controllable df). \<not> b) \<longrightarrow>
      (\<exists>gross. calculate_otp round_2 df = Inr (gross, gross))) \<and>
   (add_otp_columns df = Inr d \<and>
    (\<forall>r\<in>set (rows df). ascii_cell (QC_NAME r)) \<and>
    (\<not> has_column ''QC NAME'' df \<or>
     (\<forall>r\<in>set (rows df). \<not> regex_search CTRL_REGEX (py_str (QC_NAME r)))) \<longrightarrow>
      kpi_net (kpis_for_september d year) =
        (if kpi_gross (kpis_for_september d year) = None then None else Some 100))"
proof (intro conjI impI)
  assume a: "record_pods df = Inr pods \<and> record_targets df = Inr targets \<and>
    (\<forall>r\<in>set (rows df). ascii_cell (QC r)) \<and>
    (\<forall>b\<in>set (record_non_controllable non_controllable df). \<not> b)"
  then have p: "record_pods df = Inr pods" and t: "record_targets df = Inr targets"
    by simp_all
  define recs where "recs = zip pods targets"
  define nc where "nc = record_non_controllable non_controllable df"
  have "length nc = length recs"
    by (simp add: nc_def recs_def length_record_non_controllable
        length_record_pods [OF p] length_record_targets [OF t])
  moreover from a have "\<forall>b\<in>set nc. \<not> b" unfolding nc_def by blast
  ultimately have c: "count_controllable_valid recs nc = count_where record_valid recs"
    "count_controllable_on_time recs nc = count_where record_on_time recs"
    by (rule all_controllable_counts)+
  have "calculate_otp round_2 df =
        Inr (if count_where record_valid recs = 0 then 0
             else round_2 (float_pct (count_where record_on_time recs)
                    (count_where record_valid recs)),
             if count_where record_valid recs = 0 then 0
             else round_2 (float_pct (count_where record_on_time recs)
                    (count_where record_valid recs)))"
    by (simp add: calculate_otp_counts [OF p t] Let_def recs_def [symmetric]
        nc_def [symmetric] c)
  then show "\<exists>gross. calculate_otp round_2 df = Inr (gross, gross)" by (rule exI)
next
  assume a: "add_otp_columns df = Inr d \<and>
    (\<forall>r\<in>set (rows df). ascii_cell (QC_NAME r)) \<and>
    (\<not> has_column ''QC NAME'' df \<or>
     (\<forall>r\<in>set (rows df). \<not> regex_search CTRL_REGEX (py_str (QC_NAME r))))"
  then have "\<not> has_column ''QC NAME'' df \<or>
     (\<forall>r\<in>set (rows df). \<not> regex_search CTRL_REGEX (py_str (QC_NAME r)))"
    and "add_otp_columns df = Inr d"
    by simp_all
  then have "\<forall>r\<in>set d. On_Time_Net r" by (rule add_otp_columns_net)
  then show "kpi_net (kpis_for_september d year) =
        (if kpi_gross (kpis_for_september d year) = None then None else Some 100)"
    by (rule kpis_net_100)
qed

theorem net_equals_gross_without_non_controllable_witness:
  "record_pods late_shipments = Inr [Some (19971 + 5 / 12), Some 19972, Some 19975] \<and>
   record_targets late_shipments = Inr [Some (19971 + 3 / 8), Some 19973, Some 19974] \<and>
   list_all (\<lambda>r. ascii_cell (QC r)) (rows late_shipments) \<and>
   list_all (\<lambda>b. \<not> b) (record_non_controllable non_controllable late_shipments) \<and>
   (\<exists>gross. calculate_otp np_round2 late_shipments = Inr (gross, gross)) \<and>
   list_all (\<lambda>r. ascii_cell (QC_NAME r)) (rows late_shipments) \<and>
   list_all (\<lambda>r. \<not> regex_search CTRL_REGEX (py_str (QC_NAME r))) (rows late_shipments) \<and>
   map_sum id (\<lambda>d. kpi_gross (kpis_for_september d (Some 2024)))
     (add_otp_columns late_shipments) = Inr (Some (float_pct 1 3)) \<and>
   map_sum id (\<lambda>d. kpi_net (kpis_for_september d (Some 2024)))
     (add_otp_columns late_shipments) = Inr (Some 100)"
proof -
  let ?pods = "[Some (19971 + 5 / 12), Some 19972, Some 19975 :: timestamp option]"
  let ?targets = "[Some (19971 + 3 / 8), Some 19973, Some 19974 :: timestamp option]"
  have p: "record_pods late_shipments = Inr ?pods"
    and t: "record_targets late_shipments = Inr ?targets"
    by code_simp+
  have a1: "list_all (\<lambda>r. ascii_cell (QC r)) (rows late_shipments)" by code_simp
  have n1: "list_all (\<lambda>b. \<not> b) (record_non_controllable non_controllable late_shipments)"
    by code_simp
  have a2: "list_all (\<lambda>r. ascii_cell (QC_NAME r)) (rows late_shipments)" by code_simp
  have n2: "list_all (\<lambda>r. \<not> regex_search CTRL_REGEX (py_str (QC_NAME r)))
              (rows late_shipments)"
    by code_simp
  obtain d where d: "add_otp_columns late_shipments = Inr d"
    and g: "kpi_gross (kpis_for_september d (Some 2024)) = Some (float_pct 1 3)"
  proof -
    have "map_sum id (\<lambda>d. kpi_gross (kpis_for_september d (Some 2024)))
            (add_otp_columns late_shipments) = Inr (Some (float_pct 1 3))"
      by code_simp
    then show ?thesis by (cases "add_otp_columns late_shipments") (auto intro: that)
  qed
  note th = net_equals_gross_without_non_controllable
    [of late_shipments ?pods ?targets np_round2 d "Some 2024"]
  from a1 have a1': "\<forall>r\<in>set (rows late_shipments). ascii_cell (QC r)"
    by (simp only: list_all_iff)
  from n1 have n1': "\<forall>b\<in>set (record_non_controllable non_controllable late_shipments). \<not> b"
    by (simp only: list_all_iff)
  from a2 have a2': "\<forall>r\<in>set (rows late_shipments). ascii_cell (QC_NAME r)"
    by (simp only: list_all_iff)
  from n2 have n2': "\<forall>r\<in>set (rows late_shipments).
                       \<not> regex_search CTRL_REGEX (py_str (QC_NAME r))"
    by (simp only: list_all_iff)
  from th p t a1' n1'
  have c1: "\<exists>gross. calculate_otp np_round2 late_shipments = Inr (gross, gross)" by blast
  from th d a2' n2'
  have "kpi_net (kpis_for_september d (Some 2024)) =
        (if kpi_gross (kpis_for_september d (Some 2024)) = None then None else Some 100)"
    by blast
  with g have "kpi_net (kpis_for_september d (Some 2024)) = Some 100" by simp
  with d g have c2:
    "map_sum id (\<lambda>d. kpi_gross (kpis_for_september d (Some 2024)))
       (add_otp_columns late_shipments) = Inr (Some (float_pct 1 3))"
    "map_sum id (\<lambda>d. kpi_net (kpis_for_september d (Some 2024)))
       (add_otp_columns late_shipments) = Inr (Some 100)"
    by simp_all
  from p t a1 n1 c1 a2 n2 c2 show ?thesis by blast
qed

text \<open>
  Three September shipments, one on time, no QC text matching a pattern: the sheet-aware
  script reports as Gross OTP the float quotient of 1 by 3, times 100, and as Net OTP 100.
\<close>

theorem net_equals_gross_sheet_aware_counterexample:
  "list_all (\<lambda>r. \<not> regex_search CTRL_REGEX (py_str (QC_NAME r))) (rows late_shipments) \<and>
   map_sum id (\<lambda>d. kpi_gross (kpis_for_september d (Some 2024)))
     (add_otp_columns late_shipments) = Inr (Some (float_pct 1 3)) \<and>
   map_sum id (\<lambda>d. kpi_net (kpis_for_september d (Some 2024)))
     (add_otp_columns late_shipments) = Inr (Some 100) \<and>
   float_pct 1 3 < 100 / 3 \<and> float_pct 1 3 \<noteq> 100"
  by code_simp

end
